theory Spec2Isabelle
  imports Main
begin

section \<open>Strings\<close>

text \<open>
  Python strings are modelled as \<open>string\<close> (a list of bytes, UTF-8). The only string
  operations the orchestrator performs itself are \<open>str.format\<close> on fixed templates
  (concatenation), \<open>str.lower\<close> and the substring test \<open>sub in s\<close>. \<open>str_lower\<close>
  lowers the ASCII letters only; the one use in the source looks for the ASCII word
  \<open>recursion\<close>, and no character outside ASCII lowers to one of its letters.
\<close>

definition lower_char :: "char \<Rightarrow> char" where
  "lower_char c =
     (let n = (of_char c :: nat) in if 65 \<le> n \<and> n \<le> 90 then char_of (n + 32) else c)"

definition str_lower :: "string \<Rightarrow> string" where
  "str_lower s = map lower_char s"

fun starts_with :: "string \<Rightarrow> string \<Rightarrow> bool" where
  "starts_with [] s = True"
| "starts_with (p # ps) [] = False"
| "starts_with (p # ps) (c # cs) = (p = c \<and> starts_with ps cs)"

fun str_contains :: "string \<Rightarrow> string \<Rightarrow> bool" where
  "str_contains sub [] = (sub = [])"
| "str_contains sub (c # cs) = (starts_with sub (c # cs) \<or> str_contains sub cs)"

fun join :: "string \<Rightarrow> string list \<Rightarrow> string" where
  "join sep [] = []"
| "join sep [x] = x"
| "join sep (x # y # ys) = x @ sep @ join sep (y # ys)"

text \<open>The decimal numeral of a number, as \<open>str(n)\<close> writes it.\<close>

fun decimal :: "nat \<Rightarrow> string" where
  "decimal n =
     (if n < 10 then [char_of (48 + n)]
      else decimal (n div 10) @ [char_of (48 + n mod 10)])"

declare decimal.simps [simp del]

section \<open>Messages, conversation state, errors\<close>

text \<open>
  A message is a user message, an assistant message (with the retrieval queries of the
  tool calls it requests, empty when it answers directly) or a tool result.
\<close>

datatype message =
    HumanMessage string
  | AIMessage string "string list"
  | ToolMessage string

fun content :: "message \<Rightarrow> string" where
  "content (HumanMessage c) = c"
| "content (AIMessage c tcs) = c"
| "content (ToolMessage c) = c"

fun tool_calls :: "message \<Rightarrow> string list" where
  "tool_calls (AIMessage c tcs) = tcs"
| "tool_calls (HumanMessage c) = []"
| "tool_calls (ToolMessage c) = []"

text \<open>\<open>ExtendedState\<close>: the message list and the retry counter.\<close>

record ExtendedState =
  messages :: "message list"
  retry_count :: int

text \<open>
  What a node returns: the messages to append and, for \<open>rewrite_question\<close> only, the
  amount to add to \<open>retry_count\<close>.
\<close>

record update =
  upd_messages :: "message list"
  upd_retry_count :: "int option"

text \<open>
  The reducers of the state: \<open>add_messages\<close> appends (every message of a run gets an
  identifier of its own, so none replaces another), \<open>operator.add\<close> adds.
\<close>

definition add_messages :: "message list \<Rightarrow> message list \<Rightarrow> message list" where
  "add_messages left right = left @ right"

definition apply_update :: "ExtendedState \<Rightarrow> update \<Rightarrow> ExtendedState" where
  "apply_update st u =
     \<lparr> messages = add_messages (messages st) (upd_messages u),
       retry_count = (case upd_retry_count u of
                        None \<Rightarrow> retry_count st
                      | Some d \<Rightarrow> retry_count st + d) \<rparr>"

text \<open>Exceptions, each with its message; \<open>str\<close> is Python's \<open>str(e)\<close>.\<close>

datatype error =
    ValueError string
  | IndexError string
  | TypeError string
  | KeyError string
  | AttributeError string
  | GraphRecursionError string
  | ExternalError string

fun str :: "error \<Rightarrow> string" where
  "str (ValueError m) = m"
| "str (IndexError m) = m"
| "str (TypeError m) = m"
| "str (KeyError k) = [CHR 0x27] @ k @ [CHR 0x27]"
| "str (AttributeError m) = m"
| "str (GraphRecursionError m) = m"
| "str (ExternalError m) = m"

section \<open>The external collaborators\<close>

text \<open>
  The language models, the retriever and the tool node's error handler are outside the
  program. Each is a function of the superstep at which it is called and of what it is
  called with, so that a run may get a different response at every call; a failure
  (timeout, network, malformed response) is the value \<open>Inl\<close>.
  \<^item> \<open>response_model_with_tools\<close>: the response model with the retrieval tool bound,
    invoked on the message list; it returns the content and the retrieval queries of the
    tool calls it requests.
  \<^item> \<open>response_model\<close>: the response model invoked on one user prompt.
  \<^item> \<open>grader_model\<close>: the structured grader, returning \<open>binary_score\<close>.
  \<^item> \<open>retriever\<close>: the page contents of the retrieved documents.
  \<^item> \<open>handle_tool_error\<close>: what the framework's tool node does with a failing tool:
    \<open>Some text\<close> when it turns the failure into a tool message, \<open>None\<close> when it lets
    the failure through.
\<close>

record collaborators =
  response_model_with_tools :: "nat \<Rightarrow> message list \<Rightarrow> error + (string \<times> string list)"
  response_model :: "nat \<Rightarrow> string \<Rightarrow> error + string"
  grader_model :: "nat \<Rightarrow> string \<Rightarrow> error + string"
  retriever :: "nat \<Rightarrow> string \<Rightarrow> error + string list"
  handle_tool_error :: "error \<Rightarrow> string option"

text \<open>
  The calls a node makes to its collaborators, in order. The log of a run holds each call
  with the index of the superstep at which it was made.
\<close>

datatype call =
    Invoke_response_model_with_tools "message list"
  | Invoke_response_model string
  | Invoke_grader_model string
  | Invoke_retriever string

section \<open>The prompts\<close>

definition GRADE_PROMPT :: "string \<Rightarrow> string \<Rightarrow> string" where
  "GRADE_PROMPT question context =
     ''You are a grader assessing relevance of a retrieved document to a user question. \<newline> ''
     @ ''Here is the retrieved document: \<newline>\<newline> '' @ context @ '' \<newline>\<newline>''
     @ ''Here is the user question: '' @ question @ '' \<newline>''
     @ ''If the document contains keyword(s) or semantic meaning related to the user question, grade it as relevant. \<newline>''
     @ ''Give a binary score '' @ [CHR 0x27] @ ''yes'' @ [CHR 0x27] @ '' or '' @ [CHR 0x27] @ ''no'' @ [CHR 0x27]
     @ '' score to indicate whether the document is relevant to the question.''"

definition REWRITE_PROMPT :: "string \<Rightarrow> string" where
  "REWRITE_PROMPT question =
     ''Look at the input and try to reason about the underlying semantic intent / meaning.\<newline>''
     @ ''Here is the initial question:''
     @ ''\<newline> ------- \<newline>'' @ question @ ''\<newline> ------- \<newline>''
     @ ''Formulate an improved question:''"

definition GENERATE_PROMPT :: "string \<Rightarrow> string \<Rightarrow> string" where
  "GENERATE_PROMPT question context =
     ''You are a helpful TaskFlow assistant for question-answering tasks. ''
     @ ''Use the following pieces of retrieved context to answer the question. ''
     @ ''If you don'' @ [CHR 0x27] @ ''t know the answer, just say that you don'' @ [CHR 0x27] @ ''t know. ''
     @ ''Use three sentences maximum and keep the answer concise.\<newline>''
     @ ''Question: '' @ question @ '' \<newline>''
     @ ''Context: '' @ context"

definition FALLBACK_PROMPT :: "string \<Rightarrow> string" where
  "FALLBACK_PROMPT question =
     ''You are a helpful TaskFlow assistant. ''
     @ ''A user asked the following question, but we couldn'' @ [CHR 0x27] @ ''t find relevant information in our documentation.\<newline>''
     @ ''Question: '' @ question @ ''\<newline>\<newline>''
     @ ''Provide a helpful response that:\<newline>''
     @ ''1. Politely acknowledges we don'' @ [CHR 0x27] @ ''t have specific information about this in our TaskFlow documentation\<newline>''
     @ ''2. Suggests what they could try (contact support, check our website, rephrase question)\<newline>''
     @ ''3. If you can infer what they'' @ [CHR 0x27] @ ''re asking about, provide general helpful context\<newline>''
     @ ''Keep it brief and friendly.''"

section \<open>The nodes of the workflow\<close>

text \<open>
  Every node function returns the calls it made and either the failure raised or its
  update. Reading \<open>state["messages"][0]\<close> of an empty list raises \<open>IndexError\<close>.
\<close>

definition generate_query_or_respond ::
  "collaborators \<Rightarrow> nat \<Rightarrow> ExtendedState \<Rightarrow> call list \<times> (error + update)" where
  "generate_query_or_respond C k st =
     ([Invoke_response_model_with_tools (messages st)],
      case response_model_with_tools C k (messages st) of
        Inl e \<Rightarrow> Inl e
      | Inr (c, tcs) \<Rightarrow> Inr \<lparr> upd_messages = [AIMessage c tcs], upd_retry_count = None \<rparr>)"

definition retrieve_documents :: "collaborators \<Rightarrow> nat \<Rightarrow> string \<Rightarrow> error + string" where
  "retrieve_documents C k query_text =
     (case retriever C k query_text of
        Inl e \<Rightarrow> Inl e
      | Inr docs \<Rightarrow> Inr (join ''\<newline>\<newline>'' docs))"

text \<open>
  The framework's tool node over \<open>retrieve_documents\<close>: one tool message for each tool
  call of the last message, in order. A failing tool becomes a tool message or stops the
  node, as \<open>handle_tool_error\<close> says.
\<close>

definition tool_message :: "collaborators \<Rightarrow> nat \<Rightarrow> string \<Rightarrow> error + message" where
  "tool_message C k query_text =
     (case retrieve_documents C k query_text of
        Inr text \<Rightarrow> Inr (ToolMessage text)
      | Inl e \<Rightarrow> (case handle_tool_error C e of
                   None \<Rightarrow> Inl e
                 | Some text \<Rightarrow> Inr (ToolMessage text)))"

fun collect :: "(error + 'a) list \<Rightarrow> error + 'a list" where
  "collect [] = Inr []"
| "collect (Inl e # rs) = Inl e"
| "collect (Inr x # rs) = (case collect rs of Inl e \<Rightarrow> Inl e | Inr xs \<Rightarrow> Inr (x # xs))"

definition ToolNode ::
  "collaborators \<Rightarrow> nat \<Rightarrow> ExtendedState \<Rightarrow> call list \<times> (error + update)" where
  "ToolNode C k st =
     (case messages st of
        [] \<Rightarrow> ([], Inl (ValueError ''No message found in input''))
      | m # ms \<Rightarrow>
          (let qs = tool_calls (last (m # ms)) in
           (map Invoke_retriever qs,
            case collect (map (tool_message C k) qs) of
              Inl e \<Rightarrow> Inl e
            | Inr tms \<Rightarrow> Inr \<lparr> upd_messages = tms, upd_retry_count = None \<rparr>)))"

text \<open>The three outcomes of grading, and the node each is mapped to.\<close>

datatype route = To_generate_answer | To_rewrite_question | To_generate_fallback

definition grade_documents ::
  "collaborators \<Rightarrow> int \<Rightarrow> nat \<Rightarrow> ExtendedState \<Rightarrow> call list \<times> (error + route)" where
  "grade_documents C max_retries k st =
     (case messages st of
        [] \<Rightarrow> ([], Inl (IndexError ''list index out of range''))
      | m # ms \<Rightarrow>
          (let question = content m;
               context = content (last (m # ms));
               retries = retry_count st
           in if retries \<ge> max_retries then ([], Inr To_generate_fallback)
              else (let prompt = GRADE_PROMPT question context in
                    ([Invoke_grader_model prompt],
                     case grader_model C k prompt of
                       Inl e \<Rightarrow> Inl e
                     | Inr score \<Rightarrow>
                         Inr (if score = ''yes'' then To_generate_answer
                              else To_rewrite_question)))))"

definition rewrite_question ::
  "collaborators \<Rightarrow> nat \<Rightarrow> ExtendedState \<Rightarrow> call list \<times> (error + update)" where
  "rewrite_question C k st =
     (case messages st of
        [] \<Rightarrow> ([], Inl (IndexError ''list index out of range''))
      | m # ms \<Rightarrow>
          (let question = content m;
               prompt = REWRITE_PROMPT question
           in ([Invoke_response_model prompt],
               case response_model C k prompt of
                 Inl e \<Rightarrow> Inl e
               | Inr text \<Rightarrow>
                   Inr \<lparr> upd_messages = [HumanMessage text], upd_retry_count = Some 1 \<rparr>)))"

definition generate_answer ::
  "collaborators \<Rightarrow> nat \<Rightarrow> ExtendedState \<Rightarrow> call list \<times> (error + update)" where
  "generate_answer C k st =
     (case messages st of
        [] \<Rightarrow> ([], Inl (IndexError ''list index out of range''))
      | m # ms \<Rightarrow>
          (let question = content m;
               context = content (last (m # ms));
               prompt = GENERATE_PROMPT question context
           in ([Invoke_response_model prompt],
               case response_model C k prompt of
                 Inl e \<Rightarrow> Inl e
               | Inr text \<Rightarrow>
                   Inr \<lparr> upd_messages = [AIMessage text []], upd_retry_count = None \<rparr>)))"

definition generate_fallback ::
  "collaborators \<Rightarrow> nat \<Rightarrow> ExtendedState \<Rightarrow> call list \<times> (error + update)" where
  "generate_fallback C k st =
     (case messages st of
        [] \<Rightarrow> ([], Inl (IndexError ''list index out of range''))
      | m # ms \<Rightarrow>
          (let question = content m;
               prompt = FALLBACK_PROMPT question
           in ([Invoke_response_model prompt],
               case response_model C k prompt of
                 Inl e \<Rightarrow> Inl e
               | Inr text \<Rightarrow>
                   Inr \<lparr> upd_messages = [AIMessage text []], upd_retry_count = None \<rparr>)))"

section \<open>The compiled workflow\<close>

datatype node =
    Generate_query_or_respond
  | Retrieve
  | Rewrite_question
  | Generate_answer
  | Generate_fallback

fun run_node ::
  "collaborators \<Rightarrow> nat \<Rightarrow> node \<Rightarrow> ExtendedState \<Rightarrow> call list \<times> (error + update)" where
  "run_node C k Generate_query_or_respond st = generate_query_or_respond C k st"
| "run_node C k Retrieve st = ToolNode C k st"
| "run_node C k Rewrite_question st = rewrite_question C k st"
| "run_node C k Generate_answer st = generate_answer C k st"
| "run_node C k Generate_fallback st = generate_fallback C k st"

text \<open>
  \<open>tools_condition\<close>, the framework's edge after \<open>generate_query_or_respond\<close>: to the
  tool node when the last message requests a tool call, to the end otherwise.
\<close>

definition tools_condition :: "ExtendedState \<Rightarrow> error + node option" where
  "tools_condition st =
     (case messages st of
        [] \<Rightarrow> Inl (ValueError ''No messages found in input state to tool_edge'')
      | m # ms \<Rightarrow> Inr (if tool_calls (last (m # ms)) \<noteq> [] then Some Retrieve else None))"

fun route_target :: "route \<Rightarrow> node" where
  "route_target To_generate_answer = Generate_answer"
| "route_target To_rewrite_question = Rewrite_question"
| "route_target To_generate_fallback = Generate_fallback"

text \<open>
  The edges of the workflow, evaluated on the state that already holds the node's update:
  the node to run next, or \<open>None\<close> at the end.
\<close>

fun next_node ::
  "collaborators \<Rightarrow> int \<Rightarrow> nat \<Rightarrow> node \<Rightarrow> ExtendedState \<Rightarrow> call list \<times> (error + node option)" where
  "next_node C max_retries k Generate_query_or_respond st = ([], tools_condition st)"
| "next_node C max_retries k Retrieve st =
     (case grade_documents C max_retries k st of
        (cs, Inl e) \<Rightarrow> (cs, Inl e)
      | (cs, Inr r) \<Rightarrow> (cs, Inr (Some (route_target r))))"
| "next_node C max_retries k Rewrite_question st = ([], Inr (Some Generate_query_or_respond))"
| "next_node C max_retries k Generate_answer st = ([], Inr None)"
| "next_node C max_retries k Generate_fallback st = ([], Inr None)"

text \<open>
  What \<open>graph.stream\<close> gives its caller: the chunks \<open>(node, update)\<close> in the order they
  are yielded, the failure raised after them if any, the calls made (each with its
  superstep), and the state after each step whose chunk was yielded.
\<close>

record stream_result =
  chunks :: "(node \<times> update) list"
  raised :: "error option"
  calls :: "(nat \<times> call) list"
  states :: "ExtendedState list"

text \<open>
  The message of the framework's \<open>GraphRecursionError\<close> for a run under the given limit
  (the address of its last line is the one of the framework's documentation and changes
  with its version). The program reads the message only to look for the word
  \<open>recursion\<close>.
\<close>

definition recursion_limit_message :: "nat \<Rightarrow> string" where
  "recursion_limit_message limit =
     ''Recursion limit of '' @ decimal limit
     @ '' reached without hitting a stop condition. You can increase the limit by setting the `recursion_limit` config key.\<newline>''
     @ ''For troubleshooting, visit: https://python.langchain.com/docs/troubleshooting/errors/GRAPH_RECURSION_LIMIT''"

text \<open>
  The three ways a run goes on after a superstep: it stops on a failure, it is over, or
  the chunk of the step is followed by the rest of the run.
\<close>

definition stopped :: "error \<Rightarrow> (nat \<times> call) list \<Rightarrow> stream_result" where
  "stopped e cs = \<lparr> chunks = [], raised = Some e, calls = cs, states = [] \<rparr>"

definition finished :: stream_result where
  "finished = \<lparr> chunks = [], raised = None, calls = [], states = [] \<rparr>"

definition step_then ::
  "node \<times> update \<Rightarrow> (nat \<times> call) list \<Rightarrow> ExtendedState \<Rightarrow> stream_result
     \<Rightarrow> stream_result" where
  "step_then c cs st' r =
     \<lparr> chunks = c # chunks r, raised = raised r, calls = cs @ calls r,
       states = st' # states r \<rparr>"

definition at_step :: "nat \<Rightarrow> call list \<Rightarrow> (nat \<times> call) list" where
  "at_step k cs = map (Pair k) cs"

text \<open>
  The run of the compiled workflow under a recursion limit: the first argument after
  \<open>max_retries\<close> is the number of supersteps the framework still executes, the next the
  index of the superstep (the number of supersteps already executed). Each superstep runs
  one node, merges its update, yields its chunk and evaluates its outgoing edge. A node
  still due when the limit is used up is \<open>GraphRecursionError\<close>; the limit of the run
  is then the number of supersteps executed. A failure in a node fails the step, and no
  chunk is yielded for it; a failure in the outgoing edge is raised after the chunk of the
  node.
\<close>

fun graph_stream ::
  "collaborators \<Rightarrow> int \<Rightarrow> nat \<Rightarrow> nat \<Rightarrow> node \<Rightarrow> ExtendedState \<Rightarrow> stream_result" where
  "graph_stream C max_retries 0 k n st =
     stopped (GraphRecursionError (recursion_limit_message k)) []"
| "graph_stream C max_retries (Suc limit) k n st =
     (case run_node C k n st of
        (cs, Inl e) \<Rightarrow> stopped e (at_step k cs)
      | (cs, Inr u) \<Rightarrow>
          (let st' = apply_update st u in
           case next_node C max_retries k n st' of
             (cs', Inl e) \<Rightarrow> step_then (n, u) (at_step k (cs @ cs')) st' (stopped e [])
           | (cs', Inr None) \<Rightarrow> step_then (n, u) (at_step k (cs @ cs')) st' finished
           | (cs', Inr (Some n')) \<Rightarrow>
               step_then (n, u) (at_step k (cs @ cs')) st'
                 (graph_stream C max_retries limit (Suc k) n' st')))"

section \<open>The chatbot\<close>

text \<open>
  The semantic cache (module \<open>semantic_cache\<close>) is not among the sources: its operations
  are parameters. Each takes the cache and returns the cache after the call with its
  result, so that nothing is assumed about what an operation leaves unchanged. Distances
  and similarities are values of a type \<open>'f\<close> that the chatbot only passes on.
\<close>

record 'f CacheMatch =
  prompt :: string
  response :: string
  vector_distance :: 'f
  cosine_similarity :: 'f

record 'f CacheLookup =
  hit :: bool
  best_match :: "'f CacheMatch option"

record ('c, 'f) SemanticCache =
  check :: "'c \<Rightarrow> string \<Rightarrow> 'c \<times> (error + 'f CacheLookup)"
  add_pair :: "'c \<Rightarrow> string \<Rightarrow> string \<Rightarrow> 'c \<times> error option"
  hydrate_from_pairs :: "'c \<Rightarrow> (string option \<times> string option) list \<Rightarrow> 'c \<times> error option"
  save_to_file :: "'c \<Rightarrow> string \<Rightarrow> 'c \<times> error option"

datatype compiled_graph = Workflow

record 'c CachedRAGChatbot =
  cache :: 'c
  max_retries :: int
  graph :: "compiled_graph option"

record 'f CacheInfo =
  matched_question :: string
  distance :: 'f
  similarity :: 'f

record 'f query_result =
  answer :: string
  cache_hit :: bool
  cache_info :: "'f CacheInfo option"

text \<open>
  What a call of a method leaves behind: the chatbot after it, the calls made to the
  collaborators, and what it returned or raised.
\<close>

record ('c, 'r) outcome =
  chatbot_after :: "'c CachedRAGChatbot"
  calls_made :: "(nat \<times> call) list"
  returned :: 'r

definition bullet :: string where
  "bullet = [CHR 0xE2, CHR 0x80, CHR 0xA2]"

definition query_degraded_answer :: string where
  "query_degraded_answer =
     ''I encountered an error while searching for an answer. The question might be too complex or outside our documentation scope. Please try:\<newline>''
     @ bullet @ '' Rephrasing your question\<newline>''
     @ bullet @ '' Asking about specific TaskFlow features\<newline>''
     @ bullet @ '' Breaking down complex questions''"

definition stream_degraded_answer :: string where
  "stream_degraded_answer =
     ''I encountered an error while searching. Please try rephrasing your question or asking about specific TaskFlow features.''"

definition graph_not_initialized :: error where
  "graph_not_initialized = ValueError ''Graph not initialized. Load vectorstore first.''"

text \<open>
  What Python raises when a hit comes without a best match: the first attribute read of
  \<open>best_match\<close> is \<open>response\<close> (in \<open>query\<close> with \<open>verbose\<close> left at \<open>False\<close>, and in
  \<open>query_stream\<close>).
\<close>

definition no_best_match :: error where
  "no_best_match =
     AttributeError ([CHR 0x27] @ ''NoneType'' @ [CHR 0x27] @ '' object has no attribute ''
       @ [CHR 0x27] @ ''response'' @ [CHR 0x27])"

definition recursion_limit :: nat where
  "recursion_limit = 50"

definition initial_state :: "string \<Rightarrow> ExtendedState" where
  "initial_state question = \<lparr> messages = [HumanMessage question], retry_count = 0 \<rparr>"

definition run_workflow :: "collaborators \<Rightarrow> 'c CachedRAGChatbot \<Rightarrow> string \<Rightarrow> stream_result" where
  "run_workflow C self question =
     graph_stream C (max_retries self) recursion_limit 0 Generate_query_or_respond
       (initial_state question)"

text \<open>
  The body of the \<open>try\<close> of \<open>query\<close>: \<open>result\<close> is the update of the last chunk, and
  the answer the content of its last message.
\<close>

definition final_answer_of :: "stream_result \<Rightarrow> error + string" where
  "final_answer_of r =
     (case raised r of
        Some e \<Rightarrow> Inl e
      | None \<Rightarrow>
          (case chunks r of
             [] \<Rightarrow> Inl (TypeError ([CHR 0x27] @ ''NoneType'' @ [CHR 0x27]
                      @ '' object is not subscriptable''))
           | c # cs \<Rightarrow>
               (case upd_messages (snd (last (c # cs))) of
                  [] \<Rightarrow> Inl (IndexError ''list index out of range'')
                | m # ms \<Rightarrow> Inr (content (last (m # ms))))))"

definition is_recursion_error :: "error \<Rightarrow> bool" where
  "is_recursion_error e = str_contains ''recursion'' (str_lower (str e))"

definition query ::
  "('c, 'f) SemanticCache \<Rightarrow> collaborators \<Rightarrow> 'c CachedRAGChatbot \<Rightarrow> string
     \<Rightarrow> ('c, error + 'f query_result) outcome" where
  "query S C self question =
     (case check S (cache self) question of
        (c', Inl e) \<Rightarrow>
          \<lparr> chatbot_after = self\<lparr>cache := c'\<rparr>, calls_made = [], returned = Inl e \<rparr>
      | (c', Inr cache_results) \<Rightarrow>
          (let self' = self\<lparr>cache := c'\<rparr> in
           if hit cache_results then
             (case best_match cache_results of
                None \<Rightarrow> \<lparr> chatbot_after = self', calls_made = [], returned = Inl no_best_match \<rparr>
              | Some bm \<Rightarrow>
                  \<lparr> chatbot_after = self', calls_made = [],
                    returned = Inr \<lparr> answer = response bm, cache_hit = True,
                      cache_info = Some \<lparr> matched_question = prompt bm,
                        distance = vector_distance bm,
                        similarity = cosine_similarity bm \<rparr> \<rparr> \<rparr>)
           else if graph self' = None then
             \<lparr> chatbot_after = self', calls_made = [], returned = Inl graph_not_initialized \<rparr>
           else
             (let r = run_workflow C self' question in
              \<lparr> chatbot_after = self', calls_made = calls r,
                returned =
                  (case final_answer_of r of
                     Inr a \<Rightarrow> Inr \<lparr> answer = a, cache_hit = False, cache_info = None \<rparr>
                   | Inl e \<Rightarrow>
                       if is_recursion_error e
                       then Inr \<lparr> answer = query_degraded_answer, cache_hit = False,
                              cache_info = None \<rparr>
                       else Inl e) \<rparr>)))"

definition add_to_cache ::
  "('c, 'f) SemanticCache \<Rightarrow> 'c CachedRAGChatbot \<Rightarrow> string \<Rightarrow> string
     \<Rightarrow> ('c, error option) outcome" where
  "add_to_cache S self question ans =
     (case add_pair S (cache self) question ans of
        (c', r) \<Rightarrow> \<lparr> chatbot_after = self\<lparr>cache := c'\<rparr>, calls_made = [], returned = r \<rparr>)"

text \<open>
  \<open>query_stream\<close> is a generator: the model returns the events it yields, in order, and
  the failure it raises after them, if any.
\<close>

datatype 'f event =
    Cache_hit_event string "'f CacheInfo"
  | Cache_miss_event
  | Node_update_event node "message list"
  | Complete_event "string option"
  | Error_event string

text \<open>
  The loop over the chunks: one \<open>node_update\<close> event for each chunk, then
  \<open>final_answer\<close> is set from the last message of the chunk's update.
\<close>

fun node_updates ::
  "(node \<times> update) list \<Rightarrow> string option \<Rightarrow> 'f event list \<times> (error + string option)" where
  "node_updates [] final_answer = ([], Inr final_answer)"
| "node_updates ((n, u) # rest) final_answer =
     (case upd_messages u of
        [] \<Rightarrow> ([Node_update_event n []], Inl (IndexError ''list index out of range''))
      | m # ms \<Rightarrow>
          (case node_updates rest (Some (content (last (m # ms)))) of
             (evs, r) \<Rightarrow> (Node_update_event n (m # ms) # evs, r)))"

definition query_stream ::
  "('c, 'f) SemanticCache \<Rightarrow> collaborators \<Rightarrow> 'c CachedRAGChatbot \<Rightarrow> string
     \<Rightarrow> ('c, 'f event list \<times> error option) outcome" where
  "query_stream S C self question =
     (case check S (cache self) question of
        (c', Inl e) \<Rightarrow>
          \<lparr> chatbot_after = self\<lparr>cache := c'\<rparr>, calls_made = [], returned = ([], Some e) \<rparr>
      | (c', Inr cache_results) \<Rightarrow>
          (let self' = self\<lparr>cache := c'\<rparr> in
           if hit cache_results then
             (case best_match cache_results of
                None \<Rightarrow>
                  \<lparr> chatbot_after = self', calls_made = [], returned = ([], Some no_best_match) \<rparr>
              | Some bm \<Rightarrow>
                  \<lparr> chatbot_after = self', calls_made = [],
                    returned = ([Cache_hit_event (response bm)
                      \<lparr> matched_question = prompt bm, distance = vector_distance bm,
                        similarity = cosine_similarity bm \<rparr>], None) \<rparr>)
           else if graph self' = None then
             \<lparr> chatbot_after = self', calls_made = [],
               returned = ([Cache_miss_event], Some graph_not_initialized) \<rparr>
           else
             (let r = run_workflow C self' question in
              \<lparr> chatbot_after = self', calls_made = calls r,
                returned =
                  (case node_updates (chunks r) None of
                     (evs, looped) \<Rightarrow>
                       (case (case looped of
                                Inl e \<Rightarrow> Inl e
                              | Inr final_answer \<Rightarrow>
                                  (case raised r of
                                     Some e \<Rightarrow> Inl e
                                   | None \<Rightarrow> Inr final_answer)) of
                          Inr final_answer \<Rightarrow>
                            (Cache_miss_event # evs @ [Complete_event final_answer], None)
                        | Inl e \<Rightarrow>
                            if is_recursion_error e
                            then (Cache_miss_event # evs @ [Error_event stream_degraded_answer],
                                  None)
                            else (Cache_miss_event # evs, Some e))) \<rparr>)))"

section \<open>What is observed of a run\<close>

definition nodes :: "stream_result \<Rightarrow> node list" where
  "nodes r = map fst (chunks r)"

definition rewrite_count :: "stream_result \<Rightarrow> nat" where
  "rewrite_count r = length (filter (\<lambda>n. n = Rewrite_question) (nodes r))"

fun is_grader_call :: "call \<Rightarrow> bool" where
  "is_grader_call (Invoke_grader_model p) = True"
| "is_grader_call (Invoke_response_model_with_tools ms) = False"
| "is_grader_call (Invoke_response_model p) = False"
| "is_grader_call (Invoke_retriever q) = False"

definition grader_calls :: "stream_result \<Rightarrow> nat" where
  "grader_calls r = length (filter (\<lambda>c. is_grader_call (snd c)) (calls r))"

text \<open>The state a run ends in: the state after its last completed step.\<close>

definition final_state :: "ExtendedState \<Rightarrow> stream_result \<Rightarrow> ExtendedState" where
  "final_state st r = last (st # states r)"

section \<open>Loading and saving the cache\<close>

definition load_cache_pairs ::
  "('c, 'f) SemanticCache \<Rightarrow> 'c CachedRAGChatbot \<Rightarrow> (string \<times> string) list
     \<Rightarrow> ('c, error option) outcome" where
  "load_cache_pairs S self pairs =
     (case hydrate_from_pairs S (cache self) (map (\<lambda>(q, a). (Some q, Some a)) pairs) of
        (c', r) \<Rightarrow> \<lparr> chatbot_after = self\<lparr>cache := c'\<rparr>, calls_made = [], returned = r \<rparr>)"

text \<open>
  \<open>load_cache_from_file\<close> reads the file through the standard library's
  \<open>csv.DictReader\<close>. The file is given as the rows the underlying \<open>csv.reader\<close>
  yields, the header first, or as the failure of opening, decoding or tokenising it.
  \<open>DictReader\<close> takes the first row as the field names, skips every empty row, pairs
  the field names with the fields of a row, gives the field names a short row does not
  reach the value \<open>None\<close>, and keeps the surplus fields of a long row under the key
  \<open>None\<close>, which no lookup by a column name reads.
\<close>

definition dict_of_row :: "string list \<Rightarrow> string list \<Rightarrow> (string \<rightharpoonup> string option)" where
  "dict_of_row fieldnames row =
     fold (\<lambda>key d. d(key \<mapsto> None)) (drop (length row) fieldnames)
       (map_of (rev (zip fieldnames (map Some row))))"

text \<open>
  The loop over the rows: \<open>row['question']\<close> and \<open>row['answer']\<close> raise \<open>KeyError\<close>
  when the header has no such column.
\<close>

fun read_rows ::
  "string list \<Rightarrow> string list list \<Rightarrow> (string option \<times> string option) list
     \<Rightarrow> error + (string option \<times> string option) list" where
  "read_rows fieldnames [] pairs = Inr pairs"
| "read_rows fieldnames (row # rest) pairs =
     (if row = [] then read_rows fieldnames rest pairs
      else (let d = dict_of_row fieldnames row in
            case d ''question'' of
              None \<Rightarrow> Inl (KeyError ''question'')
            | Some q \<Rightarrow>
                (case d ''answer'' of
                   None \<Rightarrow> Inl (KeyError ''answer'')
                 | Some a \<Rightarrow> read_rows fieldnames rest (pairs @ [(q, a)]))))"

definition read_pairs ::
  "error + string list list \<Rightarrow> error + (string option \<times> string option) list" where
  "read_pairs file =
     (case file of
        Inl e \<Rightarrow> Inl e
      | Inr [] \<Rightarrow> Inr []
      | Inr (fieldnames # rows) \<Rightarrow> read_rows fieldnames rows [])"

definition load_cache_from_file ::
  "('c, 'f) SemanticCache \<Rightarrow> 'c CachedRAGChatbot \<Rightarrow> error + string list list
     \<Rightarrow> ('c, error option) outcome" where
  "load_cache_from_file S self file =
     (case read_pairs file of
        Inl e \<Rightarrow> \<lparr> chatbot_after = self, calls_made = [], returned = Some e \<rparr>
      | Inr pairs \<Rightarrow>
          (case hydrate_from_pairs S (cache self) pairs of
             (c', r) \<Rightarrow> \<lparr> chatbot_after = self\<lparr>cache := c'\<rparr>, calls_made = [], returned = r \<rparr>))"

definition save_cache_to_file ::
  "('c, 'f) SemanticCache \<Rightarrow> 'c CachedRAGChatbot \<Rightarrow> string \<Rightarrow> ('c, error option) outcome" where
  "save_cache_to_file S self filepath =
     (case save_to_file S (cache self) filepath of
        (c', r) \<Rightarrow> \<lparr> chatbot_after = self\<lparr>cache := c'\<rparr>, calls_made = [], returned = r \<rparr>)"

text \<open>
  \<open>load_existing_vectorstore\<close>: the document store (outside the program) says whether
  it loaded; on success the workflow is compiled.
\<close>

definition load_existing_vectorstore ::
  "'c CachedRAGChatbot \<Rightarrow> bool \<Rightarrow> ('c, bool) outcome" where
  "load_existing_vectorstore self success =
     \<lparr> chatbot_after = (if success then self\<lparr>graph := Some Workflow\<rparr> else self),
       calls_made = [], returned = success \<rparr>"

text \<open>The methods of the chatbot that a caller can invoke, and the chatbot after each.\<close>

datatype method_call =
    Query string
  | Query_stream string
  | Add_to_cache string string
  | Load_cache_pairs "(string \<times> string) list"
  | Load_cache_from_file "error + string list list"
  | Save_cache_to_file string
  | Load_existing_vectorstore bool
  | Get_vectorstore_stats

fun after_call ::
  "('c, 'f) SemanticCache \<Rightarrow> collaborators \<Rightarrow> 'c CachedRAGChatbot \<Rightarrow> method_call
     \<Rightarrow> 'c CachedRAGChatbot" where
  "after_call S C self (Query q) = chatbot_after (query S C self q)"
| "after_call S C self (Query_stream q) = chatbot_after (query_stream S C self q)"
| "after_call S C self (Add_to_cache q a) = chatbot_after (add_to_cache S self q a)"
| "after_call S C self (Load_cache_pairs ps) = chatbot_after (load_cache_pairs S self ps)"
| "after_call S C self (Load_cache_from_file file) = chatbot_after (load_cache_from_file S self file)"
| "after_call S C self (Save_cache_to_file path) = chatbot_after (save_cache_to_file S self path)"
| "after_call S C self (Load_existing_vectorstore ok) = chatbot_after (load_existing_vectorstore self ok)"
| "after_call S C self Get_vectorstore_stats = self"

fun writes_cache :: "method_call \<Rightarrow> bool" where
  "writes_cache (Add_to_cache q a) = True"
| "writes_cache (Load_cache_pairs ps) = True"
| "writes_cache (Load_cache_from_file file) = True"
| "writes_cache (Query q) = False"
| "writes_cache (Query_stream q) = False"
| "writes_cache (Save_cache_to_file path) = False"
| "writes_cache (Load_existing_vectorstore ok) = False"
| "writes_cache Get_vectorstore_stats = False"

section \<open>Concrete collaborators, caches and chatbots\<close>

text \<open>
  A response model that always asks for retrieval, with a grader that never finds the
  documents relevant.
\<close>

definition never_relevant :: collaborators where
  "never_relevant =
     \<lparr> response_model_with_tools = (\<lambda>k ms. Inr ([], [''taskflow''])),
       response_model = (\<lambda>k p. Inr ''rewritten''),
       grader_model = (\<lambda>k p. Inr ''no''),
       retriever = (\<lambda>k q. Inr [''doc'']),
       handle_tool_error = (\<lambda>e. None) \<rparr>"

text \<open>The same with a grader that finds the documents relevant.\<close>

definition relevant :: collaborators where
  "relevant = never_relevant\<lparr> grader_model := (\<lambda>k p. Inr ''yes''),
     response_model := (\<lambda>k p. Inr ''TaskFlow is a project tool.'') \<rparr>"

text \<open>A response model that answers directly, without retrieval.\<close>

definition direct :: collaborators where
  "direct = never_relevant\<lparr> response_model_with_tools := (\<lambda>k ms. Inr (''Hello!'', [])) \<rparr>"





text \<open>
  A cache that holds question and answer pairs and matches a question only with itself
  (distance 0, similarity 1); its \<open>check\<close> leaves the cache as it is.
\<close>

definition exact_cache :: "((string \<times> string) list, int) SemanticCache" where
  "exact_cache =
     \<lparr> check = (\<lambda>c q. (c, Inr (case map_of c q of
                  None \<Rightarrow> \<lparr> hit = False, best_match = None \<rparr>
                | Some a \<Rightarrow> \<lparr> hit = True, best_match = Some \<lparr> prompt = q, response = a,
                    vector_distance = 0, cosine_similarity = 1 \<rparr> \<rparr>))),
       add_pair = (\<lambda>c q a. (c @ [(q, a)], None)),
       hydrate_from_pairs = (\<lambda>c ps. (c @ concat (map (\<lambda>p. case p of
                  (Some q, Some a) \<Rightarrow> [(q, a)] | _ \<Rightarrow> []) ps), None)),
       save_to_file = (\<lambda>c path. (c, None)) \<rparr>"

definition seeded :: "(string \<times> string) list CachedRAGChatbot" where
  "seeded = \<lparr> cache = [(''What is TaskFlow?'', ''TaskFlow is a project tool.'')],
     max_retries = 2, graph = Some Workflow \<rparr>"

definition uninitialized :: "(string \<times> string) list CachedRAGChatbot" where
  "uninitialized = seeded\<lparr> graph := None \<rparr>"

definition patient :: "(string \<times> string) list CachedRAGChatbot" where
  "patient = seeded\<lparr> max_retries := 20 \<rparr>"



text \<open>A grader whose call fails with a timeout.\<close>

definition grader_timeout :: error where
  "grader_timeout = ExternalError ''Grader request timed out.''"

definition grader_down :: collaborators where
  "grader_down = never_relevant\<lparr> grader_model := (\<lambda>k p. Inl grader_timeout) \<rparr>"

section \<open>Runs in which the documents are never graded relevant\<close>

text \<open>
  The conditions under which a run goes through the rewrite loop: the response model
  asks for retrieval at every call, the tool node gives a message for every query, the
  grader answers and its verdict is never \<open>yes\<close>, and the response model answers every
  prompt.
\<close>

definition always_retrieves :: "collaborators \<Rightarrow> bool" where
  "always_retrieves C \<longleftrightarrow>
     (\<forall>k ms. \<exists>c tcs. response_model_with_tools C k ms = Inr (c, tcs) \<and> tcs \<noteq> [])"

definition retrieval_answers :: "collaborators \<Rightarrow> bool" where
  "retrieval_answers C \<longleftrightarrow> (\<forall>k q. \<exists>m. tool_message C k q = Inr m)"

definition never_grades_yes :: "collaborators \<Rightarrow> bool" where
  "never_grades_yes C \<longleftrightarrow> (\<forall>k p. \<exists>v. grader_model C k p = Inr v \<and> v \<noteq> ''yes'')"

definition response_model_answers :: "collaborators \<Rightarrow> bool" where
  "response_model_answers C \<longleftrightarrow> (\<forall>k p. \<exists>t. response_model C k p = Inr t)"

definition never_graded_relevant :: "collaborators \<Rightarrow> bool" where
  "never_graded_relevant C \<longleftrightarrow>
     always_retrieves C \<and> retrieval_answers C \<and> never_grades_yes C \<and> response_model_answers C"

text \<open>One rewrite cycle, and the last pass, as lists of nodes.\<close>

definition rewrite_cycle :: "node list" where
  "rewrite_cycle = [Generate_query_or_respond, Retrieve, Rewrite_question]"

definition fallback_pass :: "node list" where
  "fallback_pass = [Generate_query_or_respond, Retrieve, Generate_fallback]"

section \<open>What a caller gets at the end\<close>

text \<open>
  The events that \<open>query_stream\<close> yields for the chunks of a run, and the answer that
  the last chunk of a run carries.
\<close>

definition update_events :: "stream_result \<Rightarrow> 'f event list" where
  "update_events r = map (\<lambda>(n, u). Node_update_event n (upd_messages u)) (chunks r)"

definition last_answer :: "stream_result \<Rightarrow> string" where
  "last_answer r = content (last (upd_messages (snd (last (chunks r)))))"

text \<open>
  The terminal answer of a call: for \<open>query\<close> the answer it returns, for
  \<open>query_stream\<close> the answer carried by the last event when that is a \<open>cache_hit\<close>,
  \<open>complete\<close> or \<open>error\<close> event; for both, the failure when one is raised.
\<close>

fun terminal_answer :: "'f event \<Rightarrow> string option" where
  "terminal_answer (Cache_hit_event a info) = Some a"
| "terminal_answer (Complete_event final_answer) = final_answer"
| "terminal_answer (Error_event a) = Some a"
| "terminal_answer Cache_miss_event = None"
| "terminal_answer (Node_update_event n ms) = None"

definition query_terminal :: "error + 'f query_result \<Rightarrow> error + string option" where
  "query_terminal r = (case r of Inl e \<Rightarrow> Inl e | Inr res \<Rightarrow> Inr (Some (answer res)))"

definition stream_terminal :: "'f event list \<times> error option \<Rightarrow> error + string option" where
  "stream_terminal r =
     (case snd r of
        Some e \<Rightarrow> Inl e
      | None \<Rightarrow> (case fst r of [] \<Rightarrow> Inr None | ev # evs \<Rightarrow> Inr (terminal_answer (last (ev # evs)))))"

text \<open>
  A call is degraded when the cache misses, the workflow is set up, and its run fails with
  a failure whose message holds the word \<open>recursion\<close>.
\<close>

definition degraded ::
  "('c, 'f) SemanticCache \<Rightarrow> collaborators \<Rightarrow> 'c CachedRAGChatbot \<Rightarrow> string \<Rightarrow> bool" where
  "degraded S C self question =
     (case check S (cache self) question of
        (c', Inl e) \<Rightarrow> False
      | (c', Inr found) \<Rightarrow>
          \<not> hit found \<and> graph self \<noteq> None \<and>
          (case raised (run_workflow C self question) of
             None \<Rightarrow> False
           | Some e \<Rightarrow> is_recursion_error e))"

section \<open>Failures of the collaborators\<close>

text \<open>
  The failure of a logged call, if it failed. For a call of the retriever it is the
  failure that the tool node lets through: one that the tool node turns into a tool
  message is not a failure of the step.
\<close>

fun call_failure :: "collaborators \<Rightarrow> nat \<times> call \<Rightarrow> error option" where
  "call_failure C (k, Invoke_response_model_with_tools ms) =
     (case response_model_with_tools C k ms of Inl e \<Rightarrow> Some e | Inr r \<Rightarrow> None)"
| "call_failure C (k, Invoke_response_model p) =
     (case response_model C k p of Inl e \<Rightarrow> Some e | Inr r \<Rightarrow> None)"
| "call_failure C (k, Invoke_grader_model p) =
     (case grader_model C k p of Inl e \<Rightarrow> Some e | Inr r \<Rightarrow> None)"
| "call_failure C (k, Invoke_retriever q) =
     (case tool_message C k q of Inl e \<Rightarrow> Some e | Inr r \<Rightarrow> None)"

fun first_failure :: "collaborators \<Rightarrow> (nat \<times> call) list \<Rightarrow> error option" where
  "first_failure C [] = None"
| "first_failure C (c # cs) =
     (case call_failure C c of Some e \<Rightarrow> Some e | None \<Rightarrow> first_failure C cs)"

section \<open>What loading a file hands to the cache\<close>

text \<open>
  The chatbot after \<open>hydrate_from_pairs\<close> was given the pairs, with what the cache
  reported.
\<close>

definition hydrate_with ::
  "('c, 'f) SemanticCache \<Rightarrow> 'c CachedRAGChatbot \<Rightarrow> (string option \<times> string option) list
     \<Rightarrow> ('c, error option) outcome" where
  "hydrate_with S self pairs =
     (case hydrate_from_pairs S (cache self) pairs of
        (c', r) \<Rightarrow> \<lparr> chatbot_after = self\<lparr>cache := c'\<rparr>, calls_made = [], returned = r \<rparr>)"

text \<open>
  The pair read from a row under a header that has both columns: the fields under
  \<open>question\<close> and \<open>answer\<close>, \<open>None\<close> where the row is too short to have one.
\<close>

definition field_of :: "(string \<rightharpoonup> string option) \<Rightarrow> string \<Rightarrow> string option" where
  "field_of d key = (case d key of None \<Rightarrow> None | Some v \<Rightarrow> v)"

definition row_pair :: "string list \<Rightarrow> string list \<Rightarrow> string option \<times> string option" where
  "row_pair fieldnames row =
     (field_of (dict_of_row fieldnames row) ''question'',
      field_of (dict_of_row fieldnames row) ''answer'')"

section \<open>Basic facts about runs\<close>

lemma stopped_sel [simp]:
  "chunks (stopped e cs) = []" "raised (stopped e cs) = Some e"
  "calls (stopped e cs) = cs" "states (stopped e cs) = []"
  by (simp_all add: stopped_def)

lemma finished_sel [simp]:
  "chunks finished = []" "raised finished = None" "calls finished = []" "states finished = []"
  by (simp_all add: finished_def)

lemma step_then_sel [simp]:
  "chunks (step_then c cs st r) = c # chunks r"
  "raised (step_then c cs st r) = raised r"
  "calls (step_then c cs st r) = cs @ calls r"
  "states (step_then c cs st r) = st # states r"
  by (simp_all add: step_then_def)

lemma nodes_simps [simp]:
  "nodes (stopped e cs) = []" "nodes finished = []"
  "nodes (step_then c cs st r) = fst c # nodes r"
  by (simp_all add: nodes_def)

lemma rewrite_count_simps [simp]:
  "rewrite_count (stopped e cs) = 0" "rewrite_count finished = 0"
  "rewrite_count (step_then c cs st r) =
     (if fst c = Rewrite_question then Suc (rewrite_count r) else rewrite_count r)"
  by (simp_all add: rewrite_count_def)

lemma grader_at_step [simp]:
  "length (filter (\<lambda>c. is_grader_call (snd c)) (at_step k cs)) =
     length (filter is_grader_call cs)"
  by (induction cs) (simp_all add: at_step_def)

lemma grader_calls_simps [simp]:
  "grader_calls (stopped e cs) = length (filter (\<lambda>c. is_grader_call (snd c)) cs)"
  "grader_calls finished = 0"
  "grader_calls (step_then c cs st r) =
     length (filter (\<lambda>c. is_grader_call (snd c)) cs) + grader_calls r"
  by (simp_all add: grader_calls_def)

lemma final_state_simps [simp]:
  "final_state st (stopped e cs) = st" "final_state st finished = st"
  "final_state st (step_then c cs st' r) = final_state st' r"
  by (simp_all add: final_state_def)

lemma messages_apply_update [simp]:
  "messages (apply_update st u) = messages st @ upd_messages u"
  by (simp add: apply_update_def add_messages_def)

lemma retry_count_apply_update [simp]:
  "retry_count (apply_update st u) =
     (case upd_retry_count u of None \<Rightarrow> retry_count st | Some d \<Rightarrow> retry_count st + d)"
  by (simp add: apply_update_def)

text \<open>Each node's update: only \<open>rewrite_question\<close> touches the counter, by one.\<close>

lemma run_node_retry:
  "run_node C k n st = (cs, Inr u) \<Longrightarrow>
     upd_retry_count u = (if n = Rewrite_question then Some 1 else None)"
  by (cases n)
     (auto simp: generate_query_or_respond_def ToolNode_def rewrite_question_def
        generate_answer_def generate_fallback_def Let_def
        split: list.splits sum.splits prod.splits)

lemma next_node_rewrite:
  "next_node C mr k n st = (cs, Inr (Some Rewrite_question)) \<Longrightarrow>
     n = Retrieve \<and> retry_count st < mr"
  by (cases n)
     (auto simp: tools_condition_def grade_documents_def Let_def
        split: list.splits sum.splits prod.splits if_splits route.splits)

lemma rewrite_bound:
  "retry_count st \<le> mr \<Longrightarrow> (n = Rewrite_question \<longrightarrow> retry_count st < mr) \<Longrightarrow>
     int (rewrite_count (graph_stream C mr f k n st)) \<le> mr - retry_count st"
proof (induction f arbitrary: k n st)
  case 0
  then show ?case by simp
next
  case (Suc f)
  obtain cs res where rn: "run_node C k n st = (cs, res)" by (cases "run_node C k n st")
  show ?case
  proof (cases res)
    case (Inl e)
    with rn Suc.prems show ?thesis by simp
  next
    case (Inr u)
    let ?st = "apply_update st u"
    have rc: "retry_count ?st = (if n = Rewrite_question then retry_count st + 1 else retry_count st)"
      using run_node_retry [of C k n st cs u] rn Inr by simp
    obtain cs' res' where nn: "next_node C mr k n ?st = (cs', res')"
      by (cases "next_node C mr k n ?st")
    show ?thesis
    proof (cases res')
      case (Inl e)
      with rn Inr nn Suc.prems rc show ?thesis by (auto simp: Let_def)
    next
      case nx: (Inr nxt)
      show ?thesis
      proof (cases nxt)
        case None
        with rn Inr nn nx Suc.prems show ?thesis by (auto simp: Let_def)
      next
        case (Some n')
        have a: "retry_count ?st \<le> mr" using rc Suc.prems by auto
        have b: "n' = Rewrite_question \<longrightarrow> retry_count ?st < mr"
          using next_node_rewrite [of C mr k n ?st cs'] nn nx Some by auto
        have ih: "int (rewrite_count (graph_stream C mr f (Suc k) n' ?st)) \<le> mr - retry_count ?st"
          using Suc.IH [OF a b] .
        show ?thesis using rn Inr nn nx Some ih rc by (auto simp: Let_def)
      qed
    qed
  qed
qed

lemma retry_count_final:
  "retry_count (final_state st (graph_stream C mr f k n st)) =
     retry_count st + int (rewrite_count (graph_stream C mr f k n st))"
proof (induction f arbitrary: k n st)
  case 0
  then show ?case by simp
next
  case (Suc f)
  obtain cs res where rn: "run_node C k n st = (cs, res)" by (cases "run_node C k n st")
  show ?case
  proof (cases res)
    case (Inl e)
    with rn show ?thesis by simp
  next
    case (Inr u)
    let ?st = "apply_update st u"
    have rc: "retry_count ?st = (if n = Rewrite_question then retry_count st + 1 else retry_count st)"
      using run_node_retry [of C k n st cs u] rn Inr by simp
    obtain cs' res' where nn: "next_node C mr k n ?st = (cs', res')"
      by (cases "next_node C mr k n ?st")
    show ?thesis
    proof (cases res')
      case (Inl e)
      with rn Inr nn rc show ?thesis by (auto simp: Let_def)
    next
      case nx: (Inr nxt)
      show ?thesis
      proof (cases nxt)
        case None
        with rn Inr nn nx rc show ?thesis by (auto simp: Let_def)
      next
        case (Some n')
        show ?thesis using rn Inr nn nx Some rc Suc.IH [where k="Suc k" and n=n' and st="?st"]
          by (auto simp: Let_def)
      qed
    qed
  qed
qed

lemma messages_extended:
  "s \<in> set (states (graph_stream C mr f k n st)) \<Longrightarrow> \<exists>ms. messages s = messages st @ ms"
proof (induction f arbitrary: k n st)
  case 0
  then show ?case by simp
next
  case (Suc f)
  obtain cs res where rn: "run_node C k n st = (cs, res)" by (cases "run_node C k n st")
  show ?case
  proof (cases res)
    case (Inl e)
    with rn Suc.prems show ?thesis by simp
  next
    case (Inr u)
    let ?st = "apply_update st u"
    obtain cs' res' where nn: "next_node C mr k n ?st = (cs', res')"
      by (cases "next_node C mr k n ?st")
    show ?thesis
    proof (cases res')
      case (Inl e)
      with rn Inr nn Suc.prems show ?thesis by (auto simp: Let_def)
    next
      case nx: (Inr nxt)
      show ?thesis
      proof (cases nxt)
        case None
        with rn Inr nn nx Suc.prems show ?thesis by (auto simp: Let_def)
      next
        case (Some n')
        from Suc.prems rn Inr nn nx Some
        have "s = ?st \<or> s \<in> set (states (graph_stream C mr f (Suc k) n' ?st))"
          by (auto simp: Let_def)
        then show ?thesis
        proof
          assume "s = ?st" then show ?thesis by simp
        next
          assume "s \<in> set (states (graph_stream C mr f (Suc k) n' ?st))"
          from Suc.IH [OF this] obtain ms where "messages s = messages ?st @ ms" by blast
          then show ?thesis by simp
        qed
      qed
    qed
  qed
qed

lemma collect_length: "collect rs = Inr xs \<Longrightarrow> length xs = length rs"
proof (induction rs arbitrary: xs)
  case Nil
  then show ?case by simp
next
  case (Cons r rs)
  then show ?case by (cases r) (auto split: sum.splits)
qed

lemma run_node_nonempty:
  "run_node C k n st = (cs, Inr u) \<Longrightarrow>
   (n = Retrieve \<longrightarrow> messages st \<noteq> [] \<and> tool_calls (last (messages st)) \<noteq> []) \<Longrightarrow>
     upd_messages u \<noteq> []"
  by (cases n)
     (auto simp: generate_query_or_respond_def ToolNode_def rewrite_question_def
        generate_answer_def generate_fallback_def Let_def
        split: list.splits sum.splits prod.splits dest!: collect_length)

lemma next_node_retrieve:
  "next_node C mr k n st = (cs, Inr (Some Retrieve)) \<Longrightarrow>
     messages st \<noteq> [] \<and> tool_calls (last (messages st)) \<noteq> []"
  by (cases n)
     (auto simp: tools_condition_def grade_documents_def Let_def
        split: list.splits sum.splits prod.splits if_splits route.splits)

lemma chunks_nonempty:
  "(n = Retrieve \<longrightarrow> messages st \<noteq> [] \<and> tool_calls (last (messages st)) \<noteq> []) \<Longrightarrow>
   c \<in> set (chunks (graph_stream C mr f k n st)) \<Longrightarrow> upd_messages (snd c) \<noteq> []"
proof (induction f arbitrary: k n st)
  case 0
  then show ?case by simp
next
  case (Suc f)
  obtain cs res where rn: "run_node C k n st = (cs, res)" by (cases "run_node C k n st")
  show ?case
  proof (cases res)
    case (Inl e)
    with rn Suc.prems show ?thesis by simp
  next
    case (Inr u)
    let ?st = "apply_update st u"
    have u: "upd_messages u \<noteq> []"
      using run_node_nonempty [of C k n st cs u] rn Inr Suc.prems(1) by simp
    obtain cs' res' where nn: "next_node C mr k n ?st = (cs', res')"
      by (cases "next_node C mr k n ?st")
    show ?thesis
    proof (cases res')
      case (Inl e)
      with rn Inr nn Suc.prems u show ?thesis by (auto simp: Let_def)
    next
      case nx: (Inr nxt)
      show ?thesis
      proof (cases nxt)
        case None
        with rn Inr nn nx Suc.prems u show ?thesis by (auto simp: Let_def)
      next
        case (Some n')
        have inv: "n' = Retrieve \<longrightarrow> messages ?st \<noteq> [] \<and> tool_calls (last (messages ?st)) \<noteq> []"
          using next_node_retrieve [of C mr k n ?st cs'] nn nx Some by blast
        from Suc.prems(2) rn Inr nn nx Some
        have "c = (n, u) \<or> c \<in> set (chunks (graph_stream C mr f (Suc k) n' ?st))"
          by (auto simp: Let_def)
        then show ?thesis using u Suc.IH [OF inv] by auto
      qed
    qed
  qed
qed

lemma completed_has_chunk:
  "raised (graph_stream C mr f k n st) = None \<Longrightarrow> chunks (graph_stream C mr f k n st) \<noteq> []"
  by (cases f)
     (auto simp: Let_def split: prod.splits sum.splits option.splits)

text \<open>One superstep of a run whose limit is a numeral.\<close>

lemma graph_stream_numeral:
  "graph_stream C mr (numeral v) k n st =
     (case run_node C k n st of
        (cs, Inl e) \<Rightarrow> stopped e (at_step k cs)
      | (cs, Inr u) \<Rightarrow>
          (let st' = apply_update st u in
           case next_node C mr k n st' of
             (cs', Inl e) \<Rightarrow> step_then (n, u) (at_step k (cs @ cs')) st' (stopped e [])
           | (cs', Inr None) \<Rightarrow> step_then (n, u) (at_step k (cs @ cs')) st' finished
           | (cs', Inr (Some n')) \<Rightarrow>
               step_then (n, u) (at_step k (cs @ cs')) st'
                 (graph_stream C mr (pred_numeral v) (Suc k) n' st')))"
  by (simp add: numeral_eq_Suc)

text \<open>A run of the workflow always calls the response model: no call, no run.\<close>

lemma run_workflow_calls: "calls (run_workflow C self question) \<noteq> []"
proof -
  obtain cs res where rn:
    "run_node C 0 Generate_query_or_respond (initial_state question) = (cs, res)"
    by (cases "run_node C 0 Generate_query_or_respond (initial_state question)")
  then have "cs \<noteq> []" by (auto simp: generate_query_or_respond_def)
  with rn show ?thesis
    unfolding run_workflow_def recursion_limit_def
    by (subst graph_stream_numeral)
       (auto simp: Let_def at_step_def split: sum.splits prod.splits option.splits)
qed

text \<open>The run with the response model that answers directly: one step.\<close>

lemma direct_run:
  "run_workflow direct self q =
     step_then (Generate_query_or_respond,
         \<lparr> upd_messages = [AIMessage ''Hello!'' []], upd_retry_count = None \<rparr>)
       [(0, Invoke_response_model_with_tools [HumanMessage q])]
       \<lparr> messages = [HumanMessage q, AIMessage ''Hello!'' []], retry_count = 0 \<rparr> finished"
  unfolding run_workflow_def recursion_limit_def
  by (subst graph_stream_numeral)
     (simp add: initial_state_def direct_def never_relevant_def generate_query_or_respond_def
        tools_condition_def apply_update_def add_messages_def at_step_def)

lemma direct_query:
  "returned (query exact_cache direct seeded ''Hi'') =
     Inr \<lparr> answer = ''Hello!'', cache_hit = False, cache_info = None \<rparr>"
  by (simp add: query_def direct_run exact_cache_def seeded_def final_answer_of_def)

text \<open>A query hands the cache to \<open>check\<close> only.\<close>

lemma query_keeps_chatbot:
  "fst (check S (cache self) q) = cache self \<Longrightarrow> chatbot_after (query S C self q) = self"
  by (cases "check S (cache self) q")
     (simp add: query_def Let_def split: sum.splits option.splits)

lemma query_stream_keeps_chatbot:
  "fst (check S (cache self) q) = cache self \<Longrightarrow> chatbot_after (query_stream S C self q) = self"
  by (cases "check S (cache self) q")
     (simp add: query_stream_def Let_def split: sum.splits option.splits)

text \<open>The dictionary of a row has exactly the field names as its keys.\<close>

lemma dom_fold_upd: "dom (fold (\<lambda>key d. d(key \<mapsto> v)) ks d) = set ks \<union> dom d"
  by (induction ks arbitrary: d) auto

lemma dom_dict_of_row: "dom (dict_of_row fieldnames row) = set fieldnames"
proof -
  have "fst ` set (zip fieldnames (map Some row)) = set (take (length row) fieldnames)"
    by (metis length_map list.set_map map_fst_zip_take min.commute take_all_iff
        linorder_le_cases min_def take_take)
  then have "dom (dict_of_row fieldnames row) =
      set (drop (length row) fieldnames) \<union> set (take (length row) fieldnames)"
    by (simp add: dict_of_row_def dom_fold_upd dom_map_of_conv_image_fst)
  also have "\<dots> = set fieldnames"
    by (metis append_take_drop_id set_append sup_commute)
  finally show ?thesis .
qed

lemma dict_of_row_None: "dict_of_row fieldnames row key = None \<longleftrightarrow> key \<notin> set fieldnames"
proof -
  have "key \<in> dom (dict_of_row fieldnames row) \<longleftrightarrow> key \<in> set fieldnames"
    by (simp add: dom_dict_of_row)
  then show ?thesis by (auto simp: domIff)
qed

lemma read_rows_no_question:
  "''question'' \<notin> set fieldnames \<Longrightarrow> \<exists>row \<in> set rows. row \<noteq> [] \<Longrightarrow>
     read_rows fieldnames rows acc = Inl (KeyError ''question'')"
proof (induction rows arbitrary: acc)
  case Nil
  then show ?case by simp
next
  case (Cons row rows)
  have none: "dict_of_row fieldnames row ''question'' = None"
    using Cons.prems(1) by (simp add: dict_of_row_None)
  show ?case
  proof (cases "row = []")
    case True
    with Cons show ?thesis by auto
  next
    case False
    with none show ?thesis by (simp add: Let_def)
  qed
qed

lemma read_rows_no_answer:
  "''question'' \<in> set fieldnames \<Longrightarrow> ''answer'' \<notin> set fieldnames \<Longrightarrow>
   \<exists>row \<in> set rows. row \<noteq> [] \<Longrightarrow>
     read_rows fieldnames rows acc = Inl (KeyError ''answer'')"
proof (induction rows arbitrary: acc)
  case Nil
  then show ?case by simp
next
  case (Cons row rows)
  show ?case
  proof (cases "row = []")
    case True
    with Cons show ?thesis by auto
  next
    case False
    from Cons.prems(1) obtain q where "dict_of_row fieldnames row ''question'' = Some q"
      using dict_of_row_None [of fieldnames row] by (metis not_None_eq)
    moreover have "dict_of_row fieldnames row ''answer'' = None"
      using Cons.prems(2) by (simp add: dict_of_row_None)
    ultimately show ?thesis using False
      by (simp add: Let_def)
  qed
qed

text \<open>The supersteps of a run in which the documents are never graded relevant.\<close>

lemma collect_all_answers:
  "\<forall>x. \<exists>m. f x = Inr m \<Longrightarrow> \<exists>ms. collect (map f xs) = Inr ms"
proof (induction xs)
  case Nil
  then show ?case by simp
next
  case (Cons x xs)
  then obtain m ms where "f x = Inr m" "collect (map f xs) = Inr ms" by blast
  then show ?case by simp
qed

lemma tools_condition_last:
  "messages st \<noteq> [] \<Longrightarrow>
     tools_condition st = Inr (if tool_calls (last (messages st)) \<noteq> [] then Some Retrieve else None)"
  by (cases "messages st") (simp_all add: tools_condition_def)

lemma step_gqr:
  assumes "always_retrieves C"
  shows "\<exists>u cs s. graph_stream C mr (Suc l) k Generate_query_or_respond st =
           step_then (Generate_query_or_respond, u) (at_step k cs) s (graph_stream C mr l (Suc k) Retrieve s)
         \<and> filter is_grader_call cs = [] \<and> retry_count s = retry_count st \<and> messages s \<noteq> []"
proof -
  from assms obtain c tcs where
    r: "response_model_with_tools C k (messages st) = Inr (c, tcs)" and t: "tcs \<noteq> []"
    unfolding always_retrieves_def by blast
  let ?u = "\<lparr> upd_messages = [AIMessage c tcs], upd_retry_count = None \<rparr>"
  let ?s = "apply_update st ?u"
  have "tools_condition ?s = Inr (Some Retrieve)"
    using t by (simp add: tools_condition_last)
  with r have "graph_stream C mr (Suc l) k Generate_query_or_respond st =
      step_then (Generate_query_or_respond, ?u)
        (at_step k [Invoke_response_model_with_tools (messages st)]) ?s
        (graph_stream C mr l (Suc k) Retrieve ?s)"
    by (simp add: generate_query_or_respond_def Let_def)
  moreover have "filter is_grader_call [Invoke_response_model_with_tools (messages st)] = []"
    by simp
  moreover have "retry_count ?s = retry_count st" "messages ?s \<noteq> []" by simp_all
  ultimately show ?thesis by blast
qed


lemma ToolNode_answers:
  assumes "retrieval_answers C" "messages st \<noteq> []"
  shows "\<exists>tms. ToolNode C k st =
           (map Invoke_retriever (tool_calls (last (messages st))),
            Inr \<lparr> upd_messages = tms, upd_retry_count = None \<rparr>)"
proof -
  obtain m ms where st: "messages st = m # ms" using assms(2) by (cases "messages st") auto
  from assms(1) have "\<forall>q. \<exists>tm. tool_message C k q = Inr tm"
    unfolding retrieval_answers_def by blast
  from collect_all_answers [OF this, of "tool_calls (last (m # ms))"] obtain tms where
    "collect (map (tool_message C k) (tool_calls (last (m # ms)))) = Inr tms" by blast
  with st show ?thesis by (simp add: ToolNode_def Let_def)
qed

lemma grade_documents_low:
  assumes "never_grades_yes C" "messages st \<noteq> []" "retry_count st < mr"
  shows "\<exists>p. grade_documents C mr k st = ([Invoke_grader_model p], Inr To_rewrite_question)"
proof -
  obtain m ms where st: "messages st = m # ms" using assms(2) by (cases "messages st") auto
  from assms(1) obtain v where
    "grader_model C k (GRADE_PROMPT (content m) (content (last (m # ms)))) = Inr v" "v \<noteq> ''yes''"
    unfolding never_grades_yes_def by blast
  with st assms(3) show ?thesis by (simp add: grade_documents_def Let_def)
qed

lemma grade_documents_high:
  assumes "messages st \<noteq> []" "mr \<le> retry_count st"
  shows "grade_documents C mr k st = ([], Inr To_generate_fallback)"
proof -
  obtain m ms where st: "messages st = m # ms" using assms(1) by (cases "messages st") auto
  with assms(2) show ?thesis by (simp add: grade_documents_def Let_def)
qed

lemma step_retrieve_low:
  assumes "retrieval_answers C" "never_grades_yes C" "messages st \<noteq> []" "retry_count st < mr"
  shows "\<exists>u cs s. graph_stream C mr (Suc l) k Retrieve st =
           step_then (Retrieve, u) (at_step k cs) s (graph_stream C mr l (Suc k) Rewrite_question s)
         \<and> length (filter is_grader_call cs) = 1 \<and> retry_count s = retry_count st
         \<and> messages s \<noteq> []"
proof -
  from ToolNode_answers [OF assms(1,3)] obtain tms where
    tn: "ToolNode C k st = (map Invoke_retriever (tool_calls (last (messages st))),
            Inr \<lparr> upd_messages = tms, upd_retry_count = None \<rparr>)" by blast
  let ?u = "\<lparr> upd_messages = tms, upd_retry_count = None \<rparr>"
  let ?s = "apply_update st ?u"
  have s: "retry_count ?s = retry_count st" "messages ?s \<noteq> []" using assms(3) by simp_all
  from grade_documents_low [OF assms(2) s(2), of mr k] assms(4) s(1) obtain p where
    gd: "grade_documents C mr k ?s = ([Invoke_grader_model p], Inr To_rewrite_question)"
    by auto
  let ?cs = "map Invoke_retriever (tool_calls (last (messages st))) @ [Invoke_grader_model p]"
  have "graph_stream C mr (Suc l) k Retrieve st =
      step_then (Retrieve, ?u) (at_step k ?cs) ?s (graph_stream C mr l (Suc k) Rewrite_question ?s)"
    using tn gd by (simp add: Let_def)
  moreover have "length (filter is_grader_call ?cs) = 1"
    by (simp add: filter_empty_conv [THEN iffD2])
  ultimately show ?thesis using s by blast
qed

lemma step_retrieve_high:
  assumes "retrieval_answers C" "messages st \<noteq> []" "mr \<le> retry_count st"
  shows "\<exists>u cs s. graph_stream C mr (Suc l) k Retrieve st =
           step_then (Retrieve, u) (at_step k cs) s (graph_stream C mr l (Suc k) Generate_fallback s)
         \<and> filter is_grader_call cs = [] \<and> retry_count s = retry_count st
         \<and> messages s \<noteq> []"
proof -
  from ToolNode_answers [OF assms(1,2)] obtain tms where
    tn: "ToolNode C k st = (map Invoke_retriever (tool_calls (last (messages st))),
            Inr \<lparr> upd_messages = tms, upd_retry_count = None \<rparr>)" by blast
  let ?u = "\<lparr> upd_messages = tms, upd_retry_count = None \<rparr>"
  let ?s = "apply_update st ?u"
  have s: "retry_count ?s = retry_count st" "messages ?s \<noteq> []" using assms(2) by simp_all
  have gd: "grade_documents C mr k ?s = ([], Inr To_generate_fallback)"
    using grade_documents_high [OF s(2), of mr C k] assms(3) s(1) by simp
  let ?cs = "map Invoke_retriever (tool_calls (last (messages st)))"
  have "graph_stream C mr (Suc l) k Retrieve st =
      step_then (Retrieve, ?u) (at_step k ?cs) ?s (graph_stream C mr l (Suc k) Generate_fallback ?s)"
    using tn gd by (simp add: Let_def)
  moreover have "filter is_grader_call ?cs = []"
    by (simp add: filter_empty_conv)
  ultimately show ?thesis using s by blast
qed

lemma step_rewrite:
  assumes "response_model_answers C" "messages st \<noteq> []"
  shows "\<exists>u cs s. graph_stream C mr (Suc l) k Rewrite_question st =
           step_then (Rewrite_question, u) (at_step k cs) s
             (graph_stream C mr l (Suc k) Generate_query_or_respond s)
         \<and> filter is_grader_call cs = [] \<and> retry_count s = retry_count st + 1
         \<and> messages s \<noteq> []"
proof -
  obtain m ms where st: "messages st = m # ms" using assms(2) by (cases "messages st") auto
  from assms(1) obtain t where t: "response_model C k (REWRITE_PROMPT (content m)) = Inr t"
    unfolding response_model_answers_def by blast
  let ?u = "\<lparr> upd_messages = [HumanMessage t], upd_retry_count = Some 1 \<rparr>"
  let ?s = "apply_update st ?u"
  let ?cs = "[Invoke_response_model (REWRITE_PROMPT (content m))]"
  have "graph_stream C mr (Suc l) k Rewrite_question st =
      step_then (Rewrite_question, ?u) (at_step k ?cs) ?s
        (graph_stream C mr l (Suc k) Generate_query_or_respond ?s)"
    using st t by (simp add: rewrite_question_def Let_def)
  moreover have "filter is_grader_call ?cs = []" by simp
  moreover have "retry_count ?s = retry_count st + 1" "messages ?s \<noteq> []" by simp_all
  ultimately show ?thesis by blast
qed

lemma step_fallback:
  assumes "response_model_answers C" "messages st \<noteq> []"
  shows "\<exists>u cs s. graph_stream C mr (Suc l) k Generate_fallback st =
           step_then (Generate_fallback, u) (at_step k cs) s finished
         \<and> filter is_grader_call cs = [] \<and> retry_count s = retry_count st"
proof -
  obtain m ms where st: "messages st = m # ms" using assms(2) by (cases "messages st") auto
  from assms(1) obtain t where t: "response_model C k (FALLBACK_PROMPT (content m)) = Inr t"
    unfolding response_model_answers_def by blast
  let ?u = "\<lparr> upd_messages = [AIMessage t []], upd_retry_count = None \<rparr>"
  let ?s = "apply_update st ?u"
  let ?cs = "[Invoke_response_model (FALLBACK_PROMPT (content m))]"
  have "graph_stream C mr (Suc l) k Generate_fallback st =
      step_then (Generate_fallback, ?u) (at_step k ?cs) ?s finished"
    using st t by (simp add: generate_fallback_def Let_def)
  moreover have "filter is_grader_call ?cs = []" by simp
  moreover have "retry_count ?s = retry_count st" by simp
  ultimately show ?thesis by blast
qed

text \<open>
  With enough supersteps the run makes one rewrite cycle for each retry it has left, then
  the pass that ends in the fallback; the grader is called once in each cycle and not in
  the last pass.
\<close>

lemma never_relevant_enough_steps:
  assumes coop: "never_graded_relevant C"
  shows "messages st \<noteq> [] \<Longrightarrow> n = nat (mr - retry_count st) \<Longrightarrow> 3 * n + 3 \<le> f \<Longrightarrow>
     nodes (graph_stream C mr f k Generate_query_or_respond st) =
       concat (replicate n rewrite_cycle) @ fallback_pass
     \<and> raised (graph_stream C mr f k Generate_query_or_respond st) = None
     \<and> grader_calls (graph_stream C mr f k Generate_query_or_respond st) = n"
proof (induction n arbitrary: st f k)
  case 0
  from coop have c: "always_retrieves C" "retrieval_answers C" "response_model_answers C"
    by (simp_all add: never_graded_relevant_def)
  from 0 obtain l where f: "f = Suc (Suc (Suc l))"
    by (metis add_0 le_Suc_ex mult_0_right numeral_3_eq_3 plus_nat.simps(2) add_Suc)
  from 0 have high: "mr \<le> retry_count st" by simp
  from step_gqr [OF c(1), of mr "Suc (Suc l)" k st] obtain u1 cs1 s1 where
    g1: "graph_stream C mr (Suc (Suc (Suc l))) k Generate_query_or_respond st =
           step_then (Generate_query_or_respond, u1) (at_step k cs1) s1
             (graph_stream C mr (Suc (Suc l)) (Suc k) Retrieve s1)"
    and p1: "filter is_grader_call cs1 = []" "retry_count s1 = retry_count st" "messages s1 \<noteq> []"
    by blast
  from step_retrieve_high [OF c(2) p1(3), of mr "Suc l" "Suc k"] high p1(2) obtain u2 cs2 s2 where
    g2: "graph_stream C mr (Suc (Suc l)) (Suc k) Retrieve s1 =
           step_then (Retrieve, u2) (at_step (Suc k) cs2) s2
             (graph_stream C mr (Suc l) (Suc (Suc k)) Generate_fallback s2)"
    and p2: "filter is_grader_call cs2 = []" "retry_count s2 = retry_count s1" "messages s2 \<noteq> []"
    by auto
  from step_fallback [OF c(3) p2(3), of mr l "Suc (Suc k)"] obtain u3 cs3 s3 where
    g3: "graph_stream C mr (Suc l) (Suc (Suc k)) Generate_fallback s2 =
           step_then (Generate_fallback, u3) (at_step (Suc (Suc k)) cs3) s3 finished"
    and p3: "filter is_grader_call cs3 = []"
    by blast
  show ?case
    unfolding f g1 g2 g3 by (simp add: p1 p2 p3 fallback_pass_def)
next
  case (Suc n)
  from coop have c: "always_retrieves C" "retrieval_answers C" "never_grades_yes C"
      "response_model_answers C"
    by (simp_all add: never_graded_relevant_def)
  from Suc.prems obtain l where f: "f = Suc (Suc (Suc l))" and l: "3 * n + 3 \<le> l"
    by (metis add_Suc_right le_Suc_ex mult_Suc_right numeral_3_eq_3 add_Suc add_leD1
        add.commute nat_add_left_cancel_le plus_nat.add_0)
  from Suc.prems have low: "retry_count st < mr" by simp
  from step_gqr [OF c(1), of mr "Suc (Suc l)" k st] obtain u1 cs1 s1 where
    g1: "graph_stream C mr (Suc (Suc (Suc l))) k Generate_query_or_respond st =
           step_then (Generate_query_or_respond, u1) (at_step k cs1) s1
             (graph_stream C mr (Suc (Suc l)) (Suc k) Retrieve s1)"
    and p1: "filter is_grader_call cs1 = []" "retry_count s1 = retry_count st" "messages s1 \<noteq> []"
    by blast
  from step_retrieve_low [OF c(2) c(3) p1(3), of mr "Suc l" "Suc k"] low p1(2) obtain u2 cs2 s2 where
    g2: "graph_stream C mr (Suc (Suc l)) (Suc k) Retrieve s1 =
           step_then (Retrieve, u2) (at_step (Suc k) cs2) s2
             (graph_stream C mr (Suc l) (Suc (Suc k)) Rewrite_question s2)"
    and p2: "length (filter is_grader_call cs2) = 1" "retry_count s2 = retry_count s1"
      "messages s2 \<noteq> []"
    by auto
  from step_rewrite [OF c(4) p2(3), of mr l "Suc (Suc k)"] obtain u3 cs3 s3 where
    g3: "graph_stream C mr (Suc l) (Suc (Suc k)) Rewrite_question s2 =
           step_then (Rewrite_question, u3) (at_step (Suc (Suc k)) cs3) s3
             (graph_stream C mr l (Suc (Suc (Suc k))) Generate_query_or_respond s3)"
    and p3: "filter is_grader_call cs3 = []" "retry_count s3 = retry_count s2 + 1"
      "messages s3 \<noteq> []"
    by blast
  have n: "n = nat (mr - retry_count s3)" using Suc.prems(2) p1(2) p2(2) p3(2) by simp
  note ih = Suc.IH [OF p3(3) n l, of "Suc (Suc (Suc k))"]
  show ?case
    unfolding f g1 g2 g3 using ih by (simp add: p1 p2 p3 rewrite_cycle_def)
qed

text \<open>
  With too few supersteps for the retries it has left, the run is aborted on the recursion
  limit, after one rewrite for every three supersteps.
\<close>

lemma never_relevant_too_few_steps:
  assumes coop: "never_graded_relevant C"
  shows "messages st \<noteq> [] \<Longrightarrow> f < 3 * nat (mr - retry_count st) + 3 \<Longrightarrow>
     raised (graph_stream C mr f k Generate_query_or_respond st) =
       Some (GraphRecursionError (recursion_limit_message (k + f)))
     \<and> rewrite_count (graph_stream C mr f k Generate_query_or_respond st) = f div 3"
proof (induction f arbitrary: st k rule: less_induct)
  case (less f)
  from coop have c: "always_retrieves C" "retrieval_answers C" "never_grades_yes C"
      "response_model_answers C"
    by (simp_all add: never_graded_relevant_def)
  consider "f = 0" | "f = Suc 0" | "f = Suc (Suc 0)" | l where "f = Suc (Suc (Suc l))"
    by (metis not0_implies_Suc)
  then show ?case
  proof cases
    case 1
    then show ?thesis by simp
  next
    case 2
    from step_gqr [OF c(1), of mr 0 k st] obtain u1 cs1 s1 where
      "graph_stream C mr (Suc 0) k Generate_query_or_respond st =
         step_then (Generate_query_or_respond, u1) (at_step k cs1) s1 (graph_stream C mr 0 (Suc k) Retrieve s1)"
      by blast
    with 2 show ?thesis by simp
  next
    case 3
    from step_gqr [OF c(1), of mr "Suc 0" k st] obtain u1 cs1 s1 where
      g1: "graph_stream C mr (Suc (Suc 0)) k Generate_query_or_respond st =
         step_then (Generate_query_or_respond, u1) (at_step k cs1) s1
           (graph_stream C mr (Suc 0) (Suc k) Retrieve s1)"
      and p1: "messages s1 \<noteq> []"
      by blast
    have "\<exists>u2 cs2 s2 n'. graph_stream C mr (Suc 0) (Suc k) Retrieve s1 =
        step_then (Retrieve, u2) (at_step (Suc k) cs2) s2 (graph_stream C mr 0 (Suc (Suc k)) n' s2)"
    proof (cases "retry_count s1 < mr")
      case True
      from step_retrieve_low [OF c(2) c(3) p1 True, of 0 "Suc k"] show ?thesis by blast
    next
      case False
      then have "mr \<le> retry_count s1" by simp
      from step_retrieve_high [OF c(2) p1 this, of 0 "Suc k"] show ?thesis by blast
    qed
    then obtain u2 cs2 s2 n' where
      g2: "graph_stream C mr (Suc 0) (Suc k) Retrieve s1 =
        step_then (Retrieve, u2) (at_step (Suc k) cs2) s2 (graph_stream C mr 0 (Suc (Suc k)) n' s2)"
      by blast
    show ?thesis unfolding 3 g1 g2 by simp
  next
    case (4 l)
    with less.prems have low: "retry_count st < mr" by (cases "retry_count st < mr") auto
    from step_gqr [OF c(1), of mr "Suc (Suc l)" k st] obtain u1 cs1 s1 where
      g1: "graph_stream C mr (Suc (Suc (Suc l))) k Generate_query_or_respond st =
             step_then (Generate_query_or_respond, u1) (at_step k cs1) s1
               (graph_stream C mr (Suc (Suc l)) (Suc k) Retrieve s1)"
      and p1: "retry_count s1 = retry_count st" "messages s1 \<noteq> []"
      by blast
    from step_retrieve_low [OF c(2) c(3) p1(2), of mr "Suc l" "Suc k"] low p1(1)
    obtain u2 cs2 s2 where
      g2: "graph_stream C mr (Suc (Suc l)) (Suc k) Retrieve s1 =
             step_then (Retrieve, u2) (at_step (Suc k) cs2) s2
               (graph_stream C mr (Suc l) (Suc (Suc k)) Rewrite_question s2)"
      and p2: "retry_count s2 = retry_count s1" "messages s2 \<noteq> []"
      by auto
    from step_rewrite [OF c(4) p2(2), of mr l "Suc (Suc k)"] obtain u3 cs3 s3 where
      g3: "graph_stream C mr (Suc l) (Suc (Suc k)) Rewrite_question s2 =
             step_then (Rewrite_question, u3) (at_step (Suc (Suc k)) cs3) s3
               (graph_stream C mr l (Suc (Suc (Suc k))) Generate_query_or_respond s3)"
      and p3: "retry_count s3 = retry_count s2 + 1" "messages s3 \<noteq> []"
      by blast
    have rc: "retry_count s3 = retry_count st + 1" using p1 p2 p3 by simp
    have "nat (mr - retry_count st) = Suc (nat (mr - retry_count s3))"
      using low rc by simp
    with less.prems(2) 4 have l: "l < 3 * nat (mr - retry_count s3) + 3" by simp
    have "l < f" using 4 by simp
    note ih = less.IH [OF this p3(2) l, of "Suc (Suc (Suc k))"]
    have "Suc (l div 3) = Suc (Suc (Suc l)) div 3"
      by (metis add_Suc_right div_add_self1 numeral_3_eq_3 plus_1_eq_Suc add.commute
          zero_neq_numeral add_Suc One_nat_def)
    with ih show ?thesis unfolding 4 g1 g2 g3 by simp
  qed
qed

text \<open>The concrete collaborators that never grade relevant, and their runs.\<close>

lemma never_relevant_conditions: "never_graded_relevant never_relevant"
  by (simp add: never_graded_relevant_def always_retrieves_def retrieval_answers_def
      never_grades_yes_def response_model_answers_def never_relevant_def tool_message_def
      retrieve_documents_def)

lemma rewrites_in_cycles:
  "length (filter (\<lambda>n. n = Rewrite_question) (concat (replicate n rewrite_cycle) @ fallback_pass)) = n"
  by (induction n) (simp_all add: rewrite_cycle_def fallback_pass_def)

lemma states_length:
  "length (states (graph_stream C mr f k n st)) = length (chunks (graph_stream C mr f k n st))"
proof (induction f arbitrary: k n st)
  case 0
  then show ?case by simp
next
  case (Suc f)
  then show ?case
    by (auto simp: Let_def split: prod.splits sum.splits option.splits)
qed

lemma final_state_member:
  "chunks (graph_stream C mr f k n st) \<noteq> [] \<Longrightarrow>
     final_state st (graph_stream C mr f k n st) \<in> set (states (graph_stream C mr f k n st))"
  using states_length [of C mr f k n st]
  by (cases "states (graph_stream C mr f k n st)") (auto simp: final_state_def)

lemma seeded_never_relevant_run:
  "nodes (run_workflow never_relevant seeded q) =
     [Generate_query_or_respond, Retrieve, Rewrite_question,
      Generate_query_or_respond, Retrieve, Rewrite_question,
      Generate_query_or_respond, Retrieve, Generate_fallback]
   \<and> raised (run_workflow never_relevant seeded q) = None
   \<and> grader_calls (run_workflow never_relevant seeded q) = 2"
  using never_relevant_enough_steps [OF never_relevant_conditions, of "initial_state q" 2 2 50 0]
  by (simp add: run_workflow_def seeded_def recursion_limit_def initial_state_def
      rewrite_cycle_def fallback_pass_def numeral_2_eq_2)

lemma patient_never_relevant_run:
  "raised (run_workflow never_relevant patient q) =
     Some (GraphRecursionError (recursion_limit_message 50))
   \<and> rewrite_count (run_workflow never_relevant patient q) = 16"
  using never_relevant_too_few_steps [OF never_relevant_conditions, of "initial_state q" 50 20 0]
  by (simp add: run_workflow_def patient_def seeded_def recursion_limit_def initial_state_def)

text \<open>What \<open>query\<close> and \<open>query_stream\<close> give on a miss, from the run of the workflow.\<close>

lemma run_workflow_cache [simp]:
  "run_workflow C (self\<lparr>cache := c\<rparr>) question = run_workflow C self question"
  by (simp add: run_workflow_def)

lemma node_updates_nonempty:
  "\<forall>c \<in> set cs. upd_messages (snd c) \<noteq> [] \<Longrightarrow>
     node_updates cs final_answer =
       (map (\<lambda>(n, u). Node_update_event n (upd_messages u)) cs,
        Inr (if cs = [] then final_answer
             else Some (content (last (upd_messages (snd (last cs)))))))"
proof (induction cs arbitrary: final_answer)
  case Nil
  then show ?case by simp
next
  case (Cons c cs)
  obtain n u where c: "c = (n, u)" by (cases c)
  with Cons.prems obtain m ms where u: "upd_messages u = m # ms"
    by (cases "upd_messages u") auto
  from Cons.prems have "\<forall>c \<in> set cs. upd_messages (snd c) \<noteq> []" by simp
  from Cons.IH [OF this, of "Some (content (last (m # ms)))"] c u show ?case
    by simp
qed

lemma run_workflow_chunks_nonempty:
  "c \<in> set (chunks (run_workflow C self question)) \<Longrightarrow> upd_messages (snd c) \<noteq> []"
  unfolding run_workflow_def by (rule chunks_nonempty) simp_all

lemma run_workflow_updates:
  "node_updates (chunks (run_workflow C self question)) None =
     (update_events (run_workflow C self question),
      Inr (if chunks (run_workflow C self question) = [] then None
           else Some (last_answer (run_workflow C self question))))"
proof -
  have "\<forall>c \<in> set (chunks (run_workflow C self question)). upd_messages (snd c) \<noteq> []"
    using run_workflow_chunks_nonempty by blast
  then show ?thesis
    by (simp add: update_events_def last_answer_def node_updates_nonempty)
qed

lemma run_workflow_completed:
  "raised (run_workflow C self question) = None \<Longrightarrow>
     chunks (run_workflow C self question) \<noteq> []"
  unfolding run_workflow_def by (rule completed_has_chunk)

lemma final_answer_of_run:
  "final_answer_of (run_workflow C self question) =
     (case raised (run_workflow C self question) of
        Some e \<Rightarrow> Inl e
      | None \<Rightarrow> Inr (last_answer (run_workflow C self question)))"
proof (cases "raised (run_workflow C self question)")
  case None
  let ?r = "run_workflow C self question"
  from None have ne: "chunks ?r \<noteq> []" by (rule run_workflow_completed)
  then have "last (chunks ?r) \<in> set (chunks ?r)" by simp
  then have "upd_messages (snd (last (chunks ?r))) \<noteq> []"
    by (rule run_workflow_chunks_nonempty)
  then obtain m ms where m: "upd_messages (snd (last (chunks ?r))) = m # ms"
    by (cases "upd_messages (snd (last (chunks ?r)))") auto
  from ne obtain c cs where c: "chunks ?r = c # cs" by (cases "chunks ?r") auto
  from m c have "upd_messages (snd (last (c # cs))) = m # ms" by simp
  with None c show ?thesis
    by (simp add: final_answer_of_def last_answer_def)
next
  case (Some e)
  then show ?thesis by (simp add: final_answer_of_def)
qed

lemma query_miss:
  assumes "check S (cache self) question = (c', Inr found)" "\<not> hit found" "graph self \<noteq> None"
  shows "returned (query S C self question) =
     (case raised (run_workflow C self question) of
        Some e \<Rightarrow>
          if is_recursion_error e
          then Inr \<lparr> answer = query_degraded_answer, cache_hit = False, cache_info = None \<rparr>
          else Inl e
      | None \<Rightarrow>
          Inr \<lparr> answer = last_answer (run_workflow C self question), cache_hit = False,
                cache_info = None \<rparr>)"
proof -
  from assms(3) obtain g where "graph self = Some g" by auto
  with assms(1,2) show ?thesis
    by (simp add: query_def Let_def final_answer_of_run split: option.splits)
qed

lemma query_stream_miss:
  assumes "check S (cache self) question = (c', Inr found)" "\<not> hit found" "graph self \<noteq> None"
  shows "returned (query_stream S C self question) =
     (case raised (run_workflow C self question) of
        Some e \<Rightarrow>
          if is_recursion_error e
          then (Cache_miss_event # update_events (run_workflow C self question)
                  @ [Error_event stream_degraded_answer], None)
          else (Cache_miss_event # update_events (run_workflow C self question), Some e)
      | None \<Rightarrow>
          (Cache_miss_event # update_events (run_workflow C self question)
             @ [Complete_event (Some (last_answer (run_workflow C self question)))], None))"
proof -
  from assms(3) obtain g where g: "graph self = Some g" by auto
  show ?thesis
  proof (cases "raised (run_workflow C self question)")
    case None
    then have "chunks (run_workflow C self question) \<noteq> []" by (rule run_workflow_completed)
    with None assms(1,2) g show ?thesis
      by (simp add: query_stream_def Let_def run_workflow_updates)
  next
    case (Some e)
    with assms(1,2) g show ?thesis
      by (simp add: query_stream_def Let_def run_workflow_updates)
  qed
qed







lemma relevant_run:
  "run_workflow relevant seeded q =
     step_then (Generate_query_or_respond,
         \<lparr> upd_messages = [AIMessage [] [''taskflow'']], upd_retry_count = None \<rparr>)
       [(0, Invoke_response_model_with_tools [HumanMessage q])]
       \<lparr> messages = [HumanMessage q, AIMessage [] [''taskflow'']], retry_count = 0 \<rparr>
    (step_then (Retrieve, \<lparr> upd_messages = [ToolMessage ''doc''], upd_retry_count = None \<rparr>)
       [(1, Invoke_retriever ''taskflow''), (1, Invoke_grader_model (GRADE_PROMPT q ''doc''))]
       \<lparr> messages = [HumanMessage q, AIMessage [] [''taskflow''], ToolMessage ''doc''],
         retry_count = 0 \<rparr>
    (step_then (Generate_answer,
         \<lparr> upd_messages = [AIMessage ''TaskFlow is a project tool.'' []],
           upd_retry_count = None \<rparr>)
       [(2, Invoke_response_model (GENERATE_PROMPT q ''doc''))]
       \<lparr> messages = [HumanMessage q, AIMessage [] [''taskflow''], ToolMessage ''doc'',
           AIMessage ''TaskFlow is a project tool.'' []], retry_count = 0 \<rparr>
       finished))"
  unfolding run_workflow_def recursion_limit_def
  apply (subst graph_stream_numeral)
  apply (simp add: initial_state_def relevant_def never_relevant_def
      generate_query_or_respond_def tools_condition_def apply_update_def add_messages_def
      at_step_def)
  apply (subst graph_stream_numeral)
  apply (simp add: ToolNode_def tool_message_def retrieve_documents_def grade_documents_def
      apply_update_def add_messages_def seeded_def at_step_def)
  apply (subst graph_stream_numeral)
  apply (simp add: generate_answer_def apply_update_def add_messages_def at_step_def
      numeral_2_eq_2)
  done

text \<open>
  What \<open>rewrite_question\<close> returns, and the first failure among the calls of a step:
  a call that fails fails its node or its edge.
\<close>

lemma rewrite_question_result:
  "rewrite_question C k st = (cs, Inr u) \<Longrightarrow>
     \<exists>text. response_model C k (REWRITE_PROMPT (content (messages st ! 0))) = Inr text
       \<and> cs = [Invoke_response_model (REWRITE_PROMPT (content (messages st ! 0)))]
       \<and> u = \<lparr> upd_messages = [HumanMessage text], upd_retry_count = Some 1 \<rparr>"
  by (cases "messages st")
     (auto simp: rewrite_question_def Let_def split: sum.splits)





text \<open>
  The first failure among the calls of a run is the failure the run raises; a run whose
  grader fails; and the pairs read from the rows of a file.
\<close>

lemma calls_simps [simp]:
  "first_failure C (at_step k []) = None"
  by (simp add: at_step_def)



lemma grader_down_run:
  "run_workflow grader_down seeded q =
     step_then (Generate_query_or_respond,
         \<lparr> upd_messages = [AIMessage [] [''taskflow'']], upd_retry_count = None \<rparr>)
       [(0, Invoke_response_model_with_tools [HumanMessage q])]
       \<lparr> messages = [HumanMessage q, AIMessage [] [''taskflow'']], retry_count = 0 \<rparr>
    (step_then (Retrieve, \<lparr> upd_messages = [ToolMessage ''doc''], upd_retry_count = None \<rparr>)
       [(1, Invoke_retriever ''taskflow''), (1, Invoke_grader_model (GRADE_PROMPT q ''doc''))]
       \<lparr> messages = [HumanMessage q, AIMessage [] [''taskflow''], ToolMessage ''doc''],
         retry_count = 0 \<rparr>
       (stopped grader_timeout []))"
  unfolding run_workflow_def recursion_limit_def
  apply (subst graph_stream_numeral)
  apply (simp add: initial_state_def grader_down_def never_relevant_def
      generate_query_or_respond_def tools_condition_def apply_update_def add_messages_def
      at_step_def)
  apply (subst graph_stream_numeral)
  apply (simp add: ToolNode_def tool_message_def retrieve_documents_def grade_documents_def
      apply_update_def add_messages_def seeded_def at_step_def)
  done

lemma grader_timeout_no_recursion_error: "\<not> is_recursion_error grader_timeout"
  by (simp add: is_recursion_error_def grader_timeout_def str_lower_def lower_char_def
      char_of_eq_iff)

lemma read_rows_blank:
  "\<forall>row \<in> set rows. row = [] \<Longrightarrow> read_rows fieldnames rows acc = Inr acc"
  by (induction rows arbitrary: acc) simp_all

lemma read_rows_pairs:
  "''question'' \<in> set fieldnames \<Longrightarrow> ''answer'' \<in> set fieldnames \<Longrightarrow>
     read_rows fieldnames rows acc =
       Inr (acc @ map (row_pair fieldnames) (filter (\<lambda>row. row \<noteq> []) rows))"
proof (induction rows arbitrary: acc)
  case Nil
  then show ?case by simp
next
  case (Cons row rows)
  show ?case
  proof (cases "row = []")
    case True
    with Cons show ?thesis by simp
  next
    case False
    from Cons.prems obtain q a where
      q: "dict_of_row fieldnames row ''question'' = Some q" and
      a: "dict_of_row fieldnames row ''answer'' = Some a"
      using dict_of_row_None [of fieldnames row] by (metis not_None_eq)
    then have "row_pair fieldnames row = (q, a)"
      by (simp add: row_pair_def field_of_def)
    with False q a Cons.IH [OF Cons.prems, of "acc @ [(q, a)]"] show ?thesis
      by (simp add: Let_def)
  qed
qed

section \<open>The claims\<close>

text \<open>
  C7. When the grading step runs with \<open>retry_count < max_retries\<close> (on a state that has
  messages, and with a grader that answers), it invokes the grader once, on the prompt
  made of the content of message 0 as the question and of the content of the last message
  as the context, and the route depends on the verdict only: \<open>yes\<close> goes to
  \<open>generate_answer\<close>, anything else to \<open>rewrite_question\<close>.
\<close>

theorem grading_below_retry_limit:
  assumes "retry_count st < mr"
    and "messages st \<noteq> []"
    and "grader_model C k (GRADE_PROMPT (content (messages st ! 0)) (content (last (messages st))))
           = Inr verdict"
  shows "grade_documents C mr k st =
           ([Invoke_grader_model
               (GRADE_PROMPT (content (messages st ! 0)) (content (last (messages st))))],
            Inr (if verdict = ''yes'' then To_generate_answer else To_rewrite_question))
         \<and> snd (next_node C mr k Retrieve st) =
             Inr (Some (if verdict = ''yes'' then Generate_answer else Rewrite_question))"
  using assms
  by (cases "messages st") (simp_all add: grade_documents_def Let_def)

theorem grading_below_retry_limit_witness:
  "grade_documents never_relevant 2 0
     \<lparr> messages = [HumanMessage ''What is TaskFlow?'', ToolMessage ''doc''], retry_count = 1 \<rparr> =
     ([Invoke_grader_model (GRADE_PROMPT ''What is TaskFlow?'' ''doc'')], Inr To_rewrite_question)
   \<and> snd (next_node relevant 2 0 Retrieve
       \<lparr> messages = [HumanMessage ''What is TaskFlow?'', ToolMessage ''doc''], retry_count = 1 \<rparr>) =
     Inr (Some Generate_answer)"
  using grading_below_retry_limit [of
      "\<lparr> messages = [HumanMessage ''What is TaskFlow?'', ToolMessage ''doc''], retry_count = 1 \<rparr>"
      2 never_relevant 0 "''no''"]
    grading_below_retry_limit [of
      "\<lparr> messages = [HumanMessage ''What is TaskFlow?'', ToolMessage ''doc''], retry_count = 1 \<rparr>"
      2 relevant 0 "''yes''"]
  by (simp add: never_relevant_def relevant_def)

text \<open>
  C4. When the cache check reports a hit (with its best match), \<open>query\<close> returns the
  cached response as the answer, with \<open>cache_hit = True\<close> and \<open>cache_info\<close> holding the
  matched question, the distance and the similarity of the best match, and the workflow
  is not run (no collaborator is called, and every run calls one). When the check reports
  a miss, whatever \<open>query\<close> returns has \<open>cache_hit = False\<close> and no \<open>cache_info\<close>.
\<close>

theorem query_cache_hit_and_miss:
  assumes "check S (cache self) question = (c', Inr found)"
  shows "(hit found \<and> best_match found = Some bm \<longrightarrow>
            returned (query S C self question) =
              Inr \<lparr> answer = response bm, cache_hit = True,
                    cache_info = Some \<lparr> matched_question = prompt bm,
                      distance = vector_distance bm, similarity = cosine_similarity bm \<rparr> \<rparr>
            \<and> calls_made (query S C self question) = [])
         \<and> (\<not> hit found \<longrightarrow>
              (case returned (query S C self question) of
                 Inl e \<Rightarrow> True
               | Inr r \<Rightarrow> cache_hit r = False \<and> cache_info r = None))"
  using assms by (simp add: query_def Let_def split: sum.splits)

theorem query_cache_hit_and_miss_witness:
  "returned (query exact_cache never_relevant seeded ''What is TaskFlow?'') =
     Inr \<lparr> answer = ''TaskFlow is a project tool.'', cache_hit = True,
           cache_info = Some \<lparr> matched_question = ''What is TaskFlow?'',
             distance = 0, similarity = 1 \<rparr> \<rparr>
   \<and> calls_made (query exact_cache never_relevant seeded ''What is TaskFlow?'') = []
   \<and> returned (query exact_cache direct seeded ''Hi'') =
       Inr \<lparr> answer = ''Hello!'', cache_hit = False, cache_info = None \<rparr>"
  using query_cache_hit_and_miss [where S = exact_cache and self = seeded
      and question = "''What is TaskFlow?''" and c' = "cache seeded"
      and found = "\<lparr> hit = True, best_match = Some \<lparr> prompt = ''What is TaskFlow?'',
        response = ''TaskFlow is a project tool.'', vector_distance = 0,
        cosine_similarity = 1 \<rparr> \<rparr>"
      and bm = "\<lparr> prompt = ''What is TaskFlow?'',
        response = ''TaskFlow is a project tool.'', vector_distance = 0,
        cosine_similarity = 1 \<rparr>" and C = never_relevant]
    query_cache_hit_and_miss [where S = exact_cache and self = seeded
      and question = "''Hi''" and c' = "cache seeded"
      and found = "\<lparr> hit = False, best_match = None \<rparr>" and C = direct]
    direct_query
  by (simp add: exact_cache_def seeded_def)

text \<open>
  C6, as stated, fails: on a question that hits the cache, \<open>query\<close> on a chatbot whose
  workflow was never set up returns the cached answer.
\<close>

theorem uninitialized_hit_counterexample:
  "graph uninitialized = None
   \<and> returned (query exact_cache never_relevant uninitialized ''What is TaskFlow?'') =
       Inr \<lparr> answer = ''TaskFlow is a project tool.'', cache_hit = True,
             cache_info = Some \<lparr> matched_question = ''What is TaskFlow?'',
               distance = 0, similarity = 1 \<rparr> \<rparr>"
  by (simp add: query_def exact_cache_def uninitialized_def seeded_def)

text \<open>
  C6, amended. On a question that misses the cache, \<open>query\<close> on a chatbot whose workflow
  is not set up fails with the precondition error \<open>ValueError\<close>, at once: no
  collaborator is called and nothing is retried.
\<close>

theorem uninitialized_miss_fails:
  assumes "check S (cache self) question = (c', Inr found)"
    and "\<not> hit found"
    and "graph self = None"
  shows "returned (query S C self question) = Inl graph_not_initialized
         \<and> calls_made (query S C self question) = []"
  using assms by (simp add: query_def)

theorem uninitialized_miss_fails_witness:
  "returned (query exact_cache never_relevant uninitialized ''Hi'') =
     Inl (ValueError ''Graph not initialized. Load vectorstore first.'')
   \<and> calls_made (query exact_cache never_relevant uninitialized ''Hi'') = []"
  using uninitialized_miss_fails [where S = exact_cache and self = uninitialized
      and question = "''Hi''" and c' = "cache uninitialized"
      and found = "\<lparr> hit = False, best_match = None \<rparr>" and C = never_relevant]
  by (simp add: exact_cache_def uninitialized_def seeded_def graph_not_initialized_def)

text \<open>
  C10. On a question that hits the cache, \<open>query\<close> and \<open>query_stream\<close> do not raise
  the precondition error even when the workflow is not set up: the cache is looked up
  before the workflow is asked for, and with the best match of the hit both give the
  cached answer (\<open>query\<close> as its result, \<open>query_stream\<close> as its one \<open>cache_hit\<close> event).
\<close>

theorem cache_hit_before_initialization:
  assumes "check S (cache self) question = (c', Inr found)"
    and "hit found"
    and "graph self = None"
  shows "returned (query S C self question) \<noteq> Inl graph_not_initialized
         \<and> snd (returned (query_stream S C self question)) \<noteq> Some graph_not_initialized
         \<and> (best_match found = Some bm \<longrightarrow>
              returned (query S C self question) =
                Inr \<lparr> answer = response bm, cache_hit = True,
                      cache_info = Some \<lparr> matched_question = prompt bm,
                        distance = vector_distance bm, similarity = cosine_similarity bm \<rparr> \<rparr>
              \<and> returned (query_stream S C self question) =
                  ([Cache_hit_event (response bm)
                      \<lparr> matched_question = prompt bm, distance = vector_distance bm,
                        similarity = cosine_similarity bm \<rparr>], None))"
  using assms
  by (cases "best_match found")
     (simp_all add: query_def query_stream_def graph_not_initialized_def no_best_match_def
        Let_def)

theorem cache_hit_before_initialization_witness:
  "returned (query exact_cache never_relevant uninitialized ''What is TaskFlow?'') =
     Inr \<lparr> answer = ''TaskFlow is a project tool.'', cache_hit = True,
           cache_info = Some \<lparr> matched_question = ''What is TaskFlow?'',
             distance = 0, similarity = 1 \<rparr> \<rparr>
   \<and> returned (query_stream exact_cache never_relevant uninitialized ''What is TaskFlow?'') =
       ([Cache_hit_event ''TaskFlow is a project tool.''
           \<lparr> matched_question = ''What is TaskFlow?'', distance = 0, similarity = 1 \<rparr>], None)"
  using cache_hit_before_initialization [where S = exact_cache and self = uninitialized
      and question = "''What is TaskFlow?''" and c' = "cache uninitialized"
      and found = "\<lparr> hit = True, best_match = Some \<lparr> prompt = ''What is TaskFlow?'',
        response = ''TaskFlow is a project tool.'', vector_distance = 0,
        cosine_similarity = 1 \<rparr> \<rparr>"
      and bm = "\<lparr> prompt = ''What is TaskFlow?'',
        response = ''TaskFlow is a project tool.'', vector_distance = 0,
        cosine_similarity = 1 \<rparr>" and C = never_relevant]
  by (simp add: exact_cache_def uninitialized_def seeded_def)

text \<open>
  C9. With a cache whose \<open>check\<close> and \<open>save_to_file\<close> leave it as it is, \<open>query\<close>
  and \<open>query_stream\<close> leave the chatbot, and so its cache, unchanged: the answer of a
  miss is not inserted, and the same query asked again gets the same result. Of all the
  methods of the chatbot, only \<open>add_to_cache\<close>, \<open>load_cache_pairs\<close> and
  \<open>load_cache_from_file\<close> can change the cache.
\<close>

theorem queries_leave_cache_unchanged:
  assumes "\<forall>c q. fst (check S c q) = c"
    and "\<forall>c path. fst (save_to_file S c path) = c"
  shows "chatbot_after (query S C self question) = self
         \<and> chatbot_after (query_stream S C self question) = self
         \<and> returned (query S C (chatbot_after (query S C self question)) question) =
             returned (query S C self question)
         \<and> (cache (after_call S C self m) \<noteq> cache self \<longrightarrow> writes_cache m)"
proof -
  have q: "chatbot_after (query S C self x) = self" for x
    using assms(1) by (simp add: query_keeps_chatbot)
  have s: "chatbot_after (query_stream S C self x) = self" for x
    using assms(1) by (simp add: query_stream_keeps_chatbot)
  have sv: "cache (chatbot_after (save_cache_to_file S self p)) = cache self" for p
    using assms(2) [rule_format, of "cache self" p]
    by (cases "save_to_file S (cache self) p") (simp add: save_cache_to_file_def)
  have m: "cache (after_call S C self m) \<noteq> cache self \<longrightarrow> writes_cache m"
    by (cases m) (simp_all add: q s sv load_existing_vectorstore_def)
  show ?thesis using q s m by simp
qed

theorem queries_leave_cache_unchanged_witness:
  "chatbot_after (query exact_cache direct seeded ''Hi'') = seeded
   \<and> chatbot_after (query_stream exact_cache direct seeded ''Hi'') = seeded
   \<and> returned (query exact_cache direct (chatbot_after (query exact_cache direct seeded ''Hi'')) ''Hi'') =
       Inr \<lparr> answer = ''Hello!'', cache_hit = False, cache_info = None \<rparr>
   \<and> cache (after_call exact_cache direct seeded (Add_to_cache ''Hi'' ''Hello!'')) \<noteq> cache seeded
   \<and> writes_cache (Add_to_cache ''Hi'' ''Hello!'')"
proof -
  have a: "\<forall>c q. fst (check exact_cache c q) = c" by (simp add: exact_cache_def)
  have b: "\<forall>c path. fst (save_to_file exact_cache c path) = c" by (simp add: exact_cache_def)
  have w: "cache (after_call exact_cache direct seeded (Add_to_cache ''Hi'' ''Hello!'')) \<noteq> cache seeded"
    by (simp add: add_to_cache_def exact_cache_def seeded_def)
  show ?thesis
    using queries_leave_cache_unchanged [OF a b, of direct seeded "''Hi''" "Add_to_cache ''Hi'' ''Hello!''"]
      w direct_query
    by simp
qed

text \<open>
  C8, as stated, fails: a file whose first data row has a surplus field and whose second
  data row is blank is read, and loaded, without any failure; the surplus field is
  dropped and the blank row is skipped, silently.
\<close>

theorem malformed_file_counterexample:
  "read_pairs (Inr [[''question'', ''answer''],
                    [''q1'', ''a1'', ''junk''],
                    [],
                    [''q2'', ''a2'']]) =
     Inr [(Some ''q1'', Some ''a1''), (Some ''q2'', Some ''a2'')]
   \<and> returned (load_cache_from_file exact_cache seeded
         (Inr [[''question'', ''answer''],
               [''q1'', ''a1'', ''junk''],
               [],
               [''q2'', ''a2'']])) = None"
  by (simp add: read_pairs_def dict_of_row_def load_cache_from_file_def exact_cache_def)

text \<open>
  C8, amended. The file is given as the rows that the CSV reader yields from it (the
  header first), or as the failure of opening, decoding or tokenising it. Loading is
  then exactly this: that failure, with the cache untouched; for a file with no row that
  is not blank after the header, \<open>hydrate_from_pairs\<close> on no pair; for a header without a
  \<open>question\<close> column, or else without an \<open>answer\<close> column, a \<open>KeyError\<close> that names
  the missing column (not a row), with the cache untouched; and in every other case
  \<open>hydrate_from_pairs\<close> on one pair for each row that is not blank, with its fields under
  the two columns (surplus fields dropped, missing fields \<open>None\<close>). No row is validated and
  no failure names a row; the only other failures are those of \<open>hydrate_from_pairs\<close>.
\<close>

theorem load_cache_from_file_outcomes:
  "load_cache_from_file S self file =
     (case file of
        Inl e \<Rightarrow> \<lparr> chatbot_after = self, calls_made = [], returned = Some e \<rparr>
      | Inr [] \<Rightarrow> hydrate_with S self []
      | Inr (fieldnames # rows) \<Rightarrow>
          if \<forall>row \<in> set rows. row = [] then hydrate_with S self []
          else if ''question'' \<notin> set fieldnames then
            \<lparr> chatbot_after = self, calls_made = [], returned = Some (KeyError ''question'') \<rparr>
          else if ''answer'' \<notin> set fieldnames then
            \<lparr> chatbot_after = self, calls_made = [], returned = Some (KeyError ''answer'') \<rparr>
          else hydrate_with S self
                 (map (row_pair fieldnames) (filter (\<lambda>row. row \<noteq> []) rows)))"
proof (cases "file")
  case (Inl e)
  then show ?thesis by (simp add: load_cache_from_file_def read_pairs_def)
next
  case (Inr content)
  show ?thesis
  proof (cases content)
    case Nil
    with Inr show ?thesis
      by (simp add: load_cache_from_file_def read_pairs_def hydrate_with_def)
  next
    case (Cons fieldnames rows)
    consider (blank) "\<forall>row \<in> set rows. row = []"
      | (noq) "\<exists>row \<in> set rows. row \<noteq> []" "''question'' \<notin> set fieldnames"
      | (noa) "\<exists>row \<in> set rows. row \<noteq> []" "''question'' \<in> set fieldnames"
          "''answer'' \<notin> set fieldnames"
      | (both) "\<exists>row \<in> set rows. row \<noteq> []" "''question'' \<in> set fieldnames"
          "''answer'' \<in> set fieldnames"
      by blast
    then show ?thesis
    proof cases
      case blank
      with Inr Cons read_rows_blank [OF blank, of fieldnames "[]"] show ?thesis
        by (simp add: load_cache_from_file_def read_pairs_def hydrate_with_def)
    next
      case noq
      with Inr Cons read_rows_no_question [OF noq(2) noq(1), of "[]"] show ?thesis
        by (auto simp: load_cache_from_file_def read_pairs_def)
    next
      case noa
      with Inr Cons read_rows_no_answer [OF noa(2) noa(3) noa(1), of "[]"] show ?thesis
        by (auto simp: load_cache_from_file_def read_pairs_def)
    next
      case both
      with Inr Cons read_rows_pairs [OF both(2) both(3), of rows "[]"] show ?thesis
        by (auto simp: load_cache_from_file_def read_pairs_def hydrate_with_def)
    qed
  qed
qed

theorem load_cache_from_file_outcomes_witness:
  "load_cache_from_file exact_cache seeded
       (Inr [[''question'', ''answer''], [''q1'', ''a1'', ''junk''], [], [''q2'']]) =
     hydrate_with exact_cache seeded [(Some ''q1'', Some ''a1''), (Some ''q2'', None)]
   \<and> load_cache_from_file exact_cache seeded (Inr [[''prompt'', ''answer''], [''q1'', ''a1'']]) =
       \<lparr> chatbot_after = seeded, calls_made = [], returned = Some (KeyError ''question'') \<rparr>
   \<and> load_cache_from_file exact_cache seeded (Inr [[''question'', ''reply''], [''q1'', ''a1'']]) =
       \<lparr> chatbot_after = seeded, calls_made = [], returned = Some (KeyError ''answer'') \<rparr>
   \<and> load_cache_from_file exact_cache seeded (Inr [[''prompt'', ''reply''], [], []]) =
       hydrate_with exact_cache seeded []
   \<and> load_cache_from_file exact_cache seeded (Inl (ExternalError ''No such file'')) =
       \<lparr> chatbot_after = seeded, calls_made = [], returned = Some (ExternalError ''No such file'') \<rparr>"
  using load_cache_from_file_outcomes [of exact_cache seeded
      "Inr [[''question'', ''answer''], [''q1'', ''a1'', ''junk''], [], [''q2'']]"]
    load_cache_from_file_outcomes [of exact_cache seeded
      "Inr [[''prompt'', ''answer''], [''q1'', ''a1'']]"]
    load_cache_from_file_outcomes [of exact_cache seeded
      "Inr [[''question'', ''reply''], [''q1'', ''a1'']]"]
    load_cache_from_file_outcomes [of exact_cache seeded "Inr [[''prompt'', ''reply''], [], []]"]
    load_cache_from_file_outcomes [of exact_cache seeded "Inl (ExternalError ''No such file'')"]
  by (simp add: row_pair_def field_of_def dict_of_row_def)

text \<open>
  C1, as stated, fails: with \<open>max_retries = 20\<close>, a response model that always asks for
  retrieval and a grader that never says \<open>yes\<close>, the run is aborted on the recursion
  limit of 50 supersteps after 16 rewrites; it makes neither 20 rewrites nor the
  fallback.
\<close>

theorem retry_bound_counterexample:
  "never_graded_relevant never_relevant
   \<and> max_retries patient = 20
   \<and> rewrite_count (run_workflow never_relevant patient ''How do I export a board?'') = 16
   \<and> raised (run_workflow never_relevant patient ''How do I export a board?'') =
       Some (GraphRecursionError (recursion_limit_message 50))"
  using patient_never_relevant_run [of "''How do I export a board?''"] never_relevant_conditions
  by (simp add: patient_def seeded_def)

text \<open>
  C1, amended. With any collaborators and any \<open>max_retries\<close> that is not negative, a run
  started by a cache miss (with \<open>retry_count = 0\<close>) never makes more than \<open>max_retries\<close>
  rewrites. When moreover the response model asks for retrieval at every call, every
  collaborator answers, the grader's verdict is never \<open>yes\<close>, and \<open>max_retries\<close> is small
  enough for the recursion limit (\<open>3 * max_retries + 3 \<le> 50\<close>): the run is exactly
  \<open>max_retries\<close> rewrite cycles followed by the pass that ends in \<open>generate_fallback\<close>, and
  it ends without a failure; the grader is invoked \<open>max_retries\<close> times, so not in the last
  pass; the counter ends at \<open>max_retries\<close>, one for each rewrite.
\<close>

theorem retry_bound:
  "(0 \<le> max_retries self \<longrightarrow>
      rewrite_count (run_workflow C' self question) \<le> nat (max_retries self))
   \<and> (never_graded_relevant C \<and> 0 \<le> max_retries self
        \<and> 3 * nat (max_retries self) + 3 \<le> recursion_limit \<longrightarrow>
        nodes (run_workflow C self question) =
          concat (replicate (nat (max_retries self)) rewrite_cycle) @ fallback_pass
        \<and> raised (run_workflow C self question) = None
        \<and> rewrite_count (run_workflow C self question) = nat (max_retries self)
        \<and> grader_calls (run_workflow C self question) = nat (max_retries self)
        \<and> retry_count (final_state (initial_state question) (run_workflow C self question)) =
            max_retries self)"
proof -
  have bound: "rewrite_count (run_workflow C' self question) \<le> nat (max_retries self)"
    if "0 \<le> max_retries self"
  proof -
    have "int (rewrite_count (run_workflow C' self question)) \<le>
        max_retries self - retry_count (initial_state question)"
      unfolding run_workflow_def
      by (rule rewrite_bound) (simp_all add: initial_state_def that)
    then show ?thesis by (simp add: initial_state_def)
  qed
  have exact: "nodes (run_workflow C self question) =
          concat (replicate (nat (max_retries self)) rewrite_cycle) @ fallback_pass
        \<and> raised (run_workflow C self question) = None
        \<and> rewrite_count (run_workflow C self question) = nat (max_retries self)
        \<and> grader_calls (run_workflow C self question) = nat (max_retries self)
        \<and> retry_count (final_state (initial_state question) (run_workflow C self question)) =
            max_retries self"
    if coop: "never_graded_relevant C" and pos: "0 \<le> max_retries self"
      and lim: "3 * nat (max_retries self) + 3 \<le> recursion_limit"
  proof -
    let ?r = "run_workflow C self question"
    have run: "nodes ?r = concat (replicate (nat (max_retries self)) rewrite_cycle) @ fallback_pass
        \<and> raised ?r = None \<and> grader_calls ?r = nat (max_retries self)"
      unfolding run_workflow_def
      using never_relevant_enough_steps [OF coop, of "initial_state question"
          "nat (max_retries self)" "max_retries self" recursion_limit 0] lim
      by (simp add: initial_state_def)
    then have "nodes ?r = concat (replicate (nat (max_retries self)) rewrite_cycle) @ fallback_pass"
      by simp
    then have rw: "rewrite_count ?r = nat (max_retries self)"
      by (simp only: rewrite_count_def rewrites_in_cycles)
    have "retry_count (final_state (initial_state question) ?r) =
        retry_count (initial_state question) + int (rewrite_count ?r)"
      unfolding run_workflow_def by (rule retry_count_final)
    with rw pos have "retry_count (final_state (initial_state question) ?r) = max_retries self"
      by (simp add: initial_state_def)
    with run rw show ?thesis by simp
  qed
  from bound exact show ?thesis by blast
qed

theorem retry_bound_witness:
  "rewrite_count (run_workflow never_relevant patient ''How do I export a board?'') \<le> 20
   \<and> nodes (run_workflow never_relevant seeded ''How do I export a board?'') =
     [Generate_query_or_respond, Retrieve, Rewrite_question,
      Generate_query_or_respond, Retrieve, Rewrite_question,
      Generate_query_or_respond, Retrieve, Generate_fallback]
   \<and> raised (run_workflow never_relevant seeded ''How do I export a board?'') = None
   \<and> rewrite_count (run_workflow never_relevant seeded ''How do I export a board?'') = 2
   \<and> grader_calls (run_workflow never_relevant seeded ''How do I export a board?'') = 2
   \<and> retry_count (final_state (initial_state ''How do I export a board?'')
        (run_workflow never_relevant seeded ''How do I export a board?'')) = 2"
  using retry_bound [of patient never_relevant "''How do I export a board?''" never_relevant]
    retry_bound [of seeded never_relevant "''How do I export a board?''" never_relevant]
    never_relevant_conditions
  by (simp add: seeded_def patient_def recursion_limit_def rewrite_cycle_def fallback_pass_def
      numeral_2_eq_2)

text \<open>
  C2. In every state that a run of the workflow goes through, message 0 is the question
  that \<open>query\<close> was asked, whatever the collaborators answer and however many rewrite
  cycles were made. The rewrite step invokes the response model on the rewrite prompt of
  message 0, and its update is one new user message holding the reply, which the state
  appends after the messages it has.
\<close>

theorem message_zero_preserved:
  assumes "s \<in> set (states (run_workflow C self question))"
  shows "messages s \<noteq> [] \<and> messages s ! 0 = HumanMessage question
         \<and> (rewrite_question C k st = (cs, Inr u) \<longrightarrow>
              (\<exists>text. response_model C k (REWRITE_PROMPT (content (messages st ! 0))) = Inr text
                 \<and> cs = [Invoke_response_model (REWRITE_PROMPT (content (messages st ! 0)))]
                 \<and> upd_messages u = [HumanMessage text]
                 \<and> messages (apply_update st u) = messages st @ [HumanMessage text]))"
proof -
  from assms obtain ms where "messages s = messages (initial_state question) @ ms"
    unfolding run_workflow_def using messages_extended by blast
  then have "messages s \<noteq> [] \<and> messages s ! 0 = HumanMessage question"
    by (simp add: initial_state_def)
  moreover have "rewrite_question C k st = (cs, Inr u) \<longrightarrow>
      (\<exists>text. response_model C k (REWRITE_PROMPT (content (messages st ! 0))) = Inr text
         \<and> cs = [Invoke_response_model (REWRITE_PROMPT (content (messages st ! 0)))]
         \<and> upd_messages u = [HumanMessage text]
         \<and> messages (apply_update st u) = messages st @ [HumanMessage text])"
    using rewrite_question_result [of C k st cs u] by auto
  ultimately show ?thesis by simp
qed

theorem message_zero_preserved_witness:
  "rewrite_count (run_workflow never_relevant seeded ''How do I export a board?'') = 2
   \<and> messages (final_state (initial_state ''How do I export a board?'')
        (run_workflow never_relevant seeded ''How do I export a board?'')) ! 0 =
       HumanMessage ''How do I export a board?''
   \<and> response_model never_relevant 0 (REWRITE_PROMPT ''How do I export a board?'') =
       Inr ''rewritten''
   \<and> messages (apply_update \<lparr> messages = [HumanMessage ''How do I export a board?''], retry_count = 0 \<rparr>
        \<lparr> upd_messages = [HumanMessage ''rewritten''], upd_retry_count = Some 1 \<rparr>) =
       [HumanMessage ''How do I export a board?'', HumanMessage ''rewritten'']"
proof -
  let ?q = "''How do I export a board?''"
  let ?r = "run_workflow never_relevant seeded ?q"
  have run: "nodes ?r = [Generate_query_or_respond, Retrieve, Rewrite_question,
      Generate_query_or_respond, Retrieve, Rewrite_question,
      Generate_query_or_respond, Retrieve, Generate_fallback]"
    using seeded_never_relevant_run [of ?q] by simp
  then have "chunks ?r \<noteq> []" by (auto simp: nodes_def)
  then have mem: "final_state (initial_state ?q) ?r \<in> set (states ?r)"
    unfolding run_workflow_def by (rule final_state_member)
  have rw: "rewrite_question never_relevant 0
      \<lparr> messages = [HumanMessage ?q], retry_count = 0 \<rparr> =
      ([Invoke_response_model (REWRITE_PROMPT ?q)],
       Inr \<lparr> upd_messages = [HumanMessage ''rewritten''], upd_retry_count = Some 1 \<rparr>)"
    by (simp add: rewrite_question_def never_relevant_def)
  have rm: "response_model never_relevant 0 (REWRITE_PROMPT ?q) = Inr ''rewritten''"
    by (simp add: never_relevant_def)
  show ?thesis
    using message_zero_preserved [OF mem, of 0
        "\<lparr> messages = [HumanMessage ?q], retry_count = 0 \<rparr>"
        "[Invoke_response_model (REWRITE_PROMPT ?q)]"
        "\<lparr> upd_messages = [HumanMessage ''rewritten''], upd_retry_count = Some 1 \<rparr>"] rw rm run
    by (simp add: rewrite_count_def)
qed




text \<open>
  C3, as stated, fails: the \<open>node_update\<close> event of a step carries the messages of that
  node's update, not the messages accumulated up to it. After the retrieval step the
  state holds three messages, and the event holds the one tool message.
\<close>

theorem node_update_counterexample:
  "fst (returned (query_stream exact_cache relevant seeded ''How do I export a board?'')) ! 2 =
     (Node_update_event Retrieve [ToolMessage ''doc''] :: int event)
   \<and> messages (states (run_workflow relevant seeded ''How do I export a board?'') ! 1) =
       [HumanMessage ''How do I export a board?'', AIMessage [] [''taskflow''],
        ToolMessage ''doc'']"
proof -
  let ?q = "''How do I export a board?''"
  have cs: "check exact_cache (cache seeded) ?q =
      (cache seeded, Inr \<lparr> hit = False, best_match = None \<rparr>)"
    by (simp add: exact_cache_def seeded_def)
  have gs: "graph seeded \<noteq> None" by (simp add: seeded_def)
  have rs: "raised (run_workflow relevant seeded ?q) = None"
    by (simp add: relevant_run)
  have ev: "(update_events (run_workflow relevant seeded ?q) :: int event list) =
      [Node_update_event Generate_query_or_respond [AIMessage [] [''taskflow'']],
       Node_update_event Retrieve [ToolMessage ''doc''],
       Node_update_event Generate_answer [AIMessage ''TaskFlow is a project tool.'' []]]"
    by (simp add: relevant_run update_events_def)
  have "fst (returned (query_stream exact_cache relevant seeded ?q)) ! 2 =
      (Node_update_event Retrieve [ToolMessage ''doc''] :: int event)"
    using query_stream_miss [OF cs _ gs, of relevant] rs ev by simp
  moreover have "messages (states (run_workflow relevant seeded ?q) ! 1) =
      [HumanMessage ?q, AIMessage [] [''taskflow''], ToolMessage ''doc'']"
    by (simp add: relevant_run)
  ultimately show ?thesis by simp
qed

text \<open>
  C3, amended. For the same cache, collaborators and question, and unless the run fails
  with a failure whose message holds the word \<open>recursion\<close> (of which nothing is said
  here), \<open>query_stream\<close> ends as \<open>query\<close> does: with the same answer, or raising the
  same failure. On a hit it yields one \<open>cache_hit\<close> event. On a miss it yields
  \<open>cache_miss\<close>, then one \<open>node_update\<close> event for each chunk of the run, carrying the
  messages of that node's update; then, when the run completes, \<open>complete\<close> with the
  answer that \<open>query\<close> returns, and when the run fails, no further event: the failure is
  raised, as \<open>query\<close> raises it.
\<close>

theorem streaming_matches_query:
  "(\<not> degraded S C self question \<longrightarrow>
      stream_terminal (returned (query_stream S C self question)) =
        query_terminal (returned (query S C self question)))
   \<and> (check S (cache self) question = (c', Inr found) \<and> hit found
        \<and> best_match found = Some bm \<longrightarrow>
        returned (query_stream S C self question) =
          ([Cache_hit_event (response bm)
              \<lparr> matched_question = prompt bm, distance = vector_distance bm,
                similarity = cosine_similarity bm \<rparr>], None))
   \<and> (check S (cache self) question = (c', Inr found) \<and> \<not> hit found \<and> graph self \<noteq> None \<longrightarrow>
        (raised (run_workflow C self question) = None \<longrightarrow>
           returned (query_stream S C self question) =
             (Cache_miss_event # update_events (run_workflow C self question)
                @ [Complete_event (Some (last_answer (run_workflow C self question)))], None)
           \<and> returned (query S C self question) =
               Inr \<lparr> answer = last_answer (run_workflow C self question), cache_hit = False,
                     cache_info = None \<rparr>)
        \<and> (raised (run_workflow C self question) = Some e \<and> \<not> is_recursion_error e \<longrightarrow>
             returned (query_stream S C self question) =
               (Cache_miss_event # update_events (run_workflow C self question), Some e)
             \<and> returned (query S C self question) = Inl e))"
proof -
  obtain c r where chk: "check S (cache self) question = (c, r)"
    by (cases "check S (cache self) question")
  have main: "\<not> degraded S C self question \<longrightarrow>
      stream_terminal (returned (query_stream S C self question)) =
        query_terminal (returned (query S C self question))"
  proof (cases r)
    case (Inl e)
    with chk show ?thesis
      by (simp add: degraded_def query_def query_stream_def stream_terminal_def
          query_terminal_def)
  next
    case (Inr fnd)
    show ?thesis
    proof (cases "hit fnd")
      case True
      with chk Inr show ?thesis
        by (cases "best_match fnd")
           (simp_all add: degraded_def query_def query_stream_def stream_terminal_def
              query_terminal_def Let_def)
    next
      case False
      show ?thesis
      proof (cases "graph self")
        case None
        with chk Inr False show ?thesis
          by (simp add: degraded_def query_def query_stream_def stream_terminal_def
              query_terminal_def Let_def)
      next
        case (Some g)
        then have g: "graph self \<noteq> None" by simp
        from chk Inr have chk': "check S (cache self) question = (c, Inr fnd)" by simp
        note q = query_miss [OF chk' False g, of C]
        note s = query_stream_miss [OF chk' False g, of C]
        show ?thesis
        proof (cases "raised (run_workflow C self question)")
          case None
          with chk' False g q s show ?thesis
            by (simp add: degraded_def stream_terminal_def query_terminal_def)
        next
          case e: (Some e)
          with chk' False g q s show ?thesis
            by (cases "is_recursion_error e")
               (simp_all add: degraded_def stream_terminal_def query_terminal_def)
        qed
      qed
    qed
  qed
  have hitc: "check S (cache self) question = (c', Inr found) \<and> hit found
        \<and> best_match found = Some bm \<longrightarrow>
        returned (query_stream S C self question) =
          ([Cache_hit_event (response bm)
              \<lparr> matched_question = prompt bm, distance = vector_distance bm,
                similarity = cosine_similarity bm \<rparr>], None)"
    by (simp add: query_stream_def)
  have shape: "check S (cache self) question = (c', Inr found) \<and> \<not> hit found \<and> graph self \<noteq> None \<longrightarrow>
        (raised (run_workflow C self question) = None \<longrightarrow>
           returned (query_stream S C self question) =
             (Cache_miss_event # update_events (run_workflow C self question)
                @ [Complete_event (Some (last_answer (run_workflow C self question)))], None)
           \<and> returned (query S C self question) =
               Inr \<lparr> answer = last_answer (run_workflow C self question), cache_hit = False,
                     cache_info = None \<rparr>)
        \<and> (raised (run_workflow C self question) = Some e \<and> \<not> is_recursion_error e \<longrightarrow>
             returned (query_stream S C self question) =
               (Cache_miss_event # update_events (run_workflow C self question), Some e)
             \<and> returned (query S C self question) = Inl e)"
    by (auto simp: query_miss query_stream_miss)
  from main hitc shape show ?thesis by blast
qed

theorem streaming_matches_query_witness:
  "returned (query_stream exact_cache relevant seeded ''How do I export a board?'') =
     ([Cache_miss_event,
       Node_update_event Generate_query_or_respond [AIMessage [] [''taskflow'']],
       Node_update_event Retrieve [ToolMessage ''doc''],
       Node_update_event Generate_answer [AIMessage ''TaskFlow is a project tool.'' []],
       Complete_event (Some ''TaskFlow is a project tool.'')], None)
   \<and> returned (query exact_cache relevant seeded ''How do I export a board?'') =
       Inr \<lparr> answer = ''TaskFlow is a project tool.'', cache_hit = False, cache_info = None \<rparr>
   \<and> stream_terminal
         (returned (query_stream exact_cache relevant seeded ''How do I export a board?'')) =
       query_terminal (returned (query exact_cache relevant seeded ''How do I export a board?''))
   \<and> returned (query_stream exact_cache grader_down seeded ''How do I export a board?'') =
       ([Cache_miss_event,
         Node_update_event Generate_query_or_respond [AIMessage [] [''taskflow'']],
         Node_update_event Retrieve [ToolMessage ''doc'']], Some grader_timeout)
   \<and> returned (query exact_cache grader_down seeded ''How do I export a board?'') =
       Inl grader_timeout
   \<and> returned (query_stream exact_cache relevant seeded ''What is TaskFlow?'') =
       ([Cache_hit_event ''TaskFlow is a project tool.''
           \<lparr> matched_question = ''What is TaskFlow?'', distance = 0, similarity = 1 \<rparr>], None)"
proof -
  let ?q = "''How do I export a board?''"
  let ?miss = "\<lparr> hit = False, best_match = None \<rparr> :: int CacheLookup"
  let ?bm = "\<lparr> prompt = ''What is TaskFlow?'', response = ''TaskFlow is a project tool.'',
      vector_distance = 0, cosine_similarity = 1 \<rparr> :: int CacheMatch"
  have cs: "check exact_cache (cache seeded) ?q = (cache seeded, Inr ?miss)"
    by (simp add: exact_cache_def seeded_def)
  have ch: "check exact_cache (cache seeded) ''What is TaskFlow?'' =
      (cache seeded, Inr \<lparr> hit = True, best_match = Some ?bm \<rparr>)"
    by (simp add: exact_cache_def seeded_def)
  have gs: "graph seeded \<noteq> None" by (simp add: seeded_def)
  have rs: "raised (run_workflow relevant seeded ?q) = None"
    by (simp add: relevant_run)
  have ds: "\<not> degraded exact_cache relevant seeded ?q"
    using cs gs rs by (simp add: degraded_def)
  have ev: "(update_events (run_workflow relevant seeded ?q) :: int event list) =
      [Node_update_event Generate_query_or_respond [AIMessage [] [''taskflow'']],
       Node_update_event Retrieve [ToolMessage ''doc''],
       Node_update_event Generate_answer [AIMessage ''TaskFlow is a project tool.'' []]]"
    by (simp add: relevant_run update_events_def)
  have la: "last_answer (run_workflow relevant seeded ?q) = ''TaskFlow is a project tool.''"
    by (simp add: relevant_run last_answer_def)
  have rg: "raised (run_workflow grader_down seeded ?q) = Some grader_timeout"
    by (simp add: grader_down_run)
  have eg: "(update_events (run_workflow grader_down seeded ?q) :: int event list) =
      [Node_update_event Generate_query_or_respond [AIMessage [] [''taskflow'']],
       Node_update_event Retrieve [ToolMessage ''doc'']]"
    by (simp add: grader_down_run update_events_def)
  show ?thesis
    using streaming_matches_query [where S = exact_cache and C = relevant and self = seeded
        and question = ?q and c' = "cache seeded" and found = ?miss]
      streaming_matches_query [where S = exact_cache and C = grader_down and self = seeded
        and question = ?q and c' = "cache seeded" and found = ?miss and e = grader_timeout]
      streaming_matches_query [where S = exact_cache and C = relevant and self = seeded
        and question = "''What is TaskFlow?''" and c' = "cache seeded"
        and found = "\<lparr> hit = True, best_match = Some ?bm \<rparr>" and bm = ?bm]
      cs ch gs rs ds ev la rg eg grader_timeout_no_recursion_error
    by (simp add: stream_terminal_def query_terminal_def)
qed

end
